theory Spec2Isabelle
  imports Main
begin

section \<open>Theme preferences (theme.ts)\<close>

text \<open>
  \<^verbatim>\<open>ThemeMode\<close> and \<^verbatim>\<open>ThemePreset\<close> are unions of string literals: at run time
  a value of either is a JavaScript string, and the casts of \<^verbatim>\<open>loadThemePreferences\<close>
  check nothing. They are strings here, with the membership in the union as a predicate.
\<close>

type_synonym ThemeMode = string
type_synonym ThemePreset = string

record ThemePreferences =
  mode :: ThemeMode
  preset :: ThemePreset

definition DEFAULT_THEME_PREFERENCES :: ThemePreferences where
  "DEFAULT_THEME_PREFERENCES = \<lparr>mode = ''light'', preset = ''default''\<rparr>"

definition is_ThemeMode :: "string \<Rightarrow> bool" where
  "is_ThemeMode m = (m = ''light'' \<or> m = ''dark'')"

definition is_ThemePreset :: "string \<Rightarrow> bool" where
  "is_ThemePreset p =
     (p = ''default'' \<or> p = ''brutalist'' \<or> p = ''soft-pop'' \<or> p = ''tangerine'')"

definition valid_ThemePreferences :: "ThemePreferences \<Rightarrow> bool" where
  "valid_ThemePreferences p = (is_ThemeMode (mode p) \<and> is_ThemePreset (preset p))"

text \<open>\<^verbatim>\<open>Partial<ThemePreferences>\<close>: each field present or not.\<close>

record PartialThemePreferences =
  mode_opt :: "ThemeMode option"
  preset_opt :: "ThemePreset option"

text \<open>The object spread \<^verbatim>\<open>{ ...s, ...p }\<close>: a field of \<open>p\<close> that is present wins.\<close>

definition spread :: "ThemePreferences \<Rightarrow> PartialThemePreferences \<Rightarrow> ThemePreferences" where
  "spread s p =
     \<lparr>mode = (case mode_opt p of None \<Rightarrow> mode s | Some m \<Rightarrow> m),
      preset = (case preset_opt p of None \<Rightarrow> preset s | Some q \<Rightarrow> q)\<rparr>"


section \<open>The JavaScript string operations the code calls\<close>

definition charAt :: "string \<Rightarrow> nat \<Rightarrow> string" where
  "charAt s i = (if i < length s then [s ! i] else [])"

definition substring :: "string \<Rightarrow> nat \<Rightarrow> nat \<Rightarrow> string" where
  "substring s a b =
     (let a' = min a (length s); b' = min b (length s)
      in take (max a' b' - min a' b') (drop (min a' b') s))"

text \<open>\<^verbatim>\<open>s.indexOf(x)\<close>: the index of the first occurrence of \<open>x\<close> in \<open>s\<close>, or -1.\<close>

fun indexOf :: "string \<Rightarrow> string \<Rightarrow> int" where
  "indexOf [] x = (if x = [] then 0 else - 1)"
| "indexOf (c # cs) x =
     (if take (length x) (c # cs) = x then 0
      else (let r = indexOf cs x in if r < 0 then - 1 else r + 1))"

text \<open>\<^verbatim>\<open>s.split(sep)\<close> for a separator of one character; \<open>cur\<close> is the piece being read.\<close>

fun split_from :: "char \<Rightarrow> string \<Rightarrow> string \<Rightarrow> string list" where
  "split_from sep cur [] = [cur]"
| "split_from sep cur (c # cs) =
     (if c = sep then cur # split_from sep [] cs else split_from sep (cur @ [c]) cs)"

definition split :: "string \<Rightarrow> char \<Rightarrow> string list" where
  "split s sep = split_from sep [] s"

text \<open>\<^verbatim>\<open>parts.join(sep)\<close>.\<close>

fun join :: "string \<Rightarrow> string list \<Rightarrow> string" where
  "join sep [] = []"
| "join sep [x] = x"
| "join sep (x # y # ys) = x @ sep @ join sep (y # ys)"


section \<open>The JavaScript Date operations the code calls\<close>

text \<open>
  A time value is a number of milliseconds since the start of 1970, UTC (ECMA-262, 21.4.1).
  \<open>civil_from_days\<close> gives the year, the month (0 to 11) and the day of the month of a day
  number in the proleptic Gregorian calendar.
\<close>

definition msPerDay :: int where
  "msPerDay = 86400000"

definition Day :: "int \<Rightarrow> int" where
  "Day t = t div msPerDay"

definition WeekDay :: "int \<Rightarrow> int" where
  "WeekDay t = (Day t + 4) mod 7"

definition HourFromTime :: "int \<Rightarrow> int" where
  "HourFromTime t = (t div 3600000) mod 24"

definition MinFromTime :: "int \<Rightarrow> int" where
  "MinFromTime t = (t div 60000) mod 60"

definition SecFromTime :: "int \<Rightarrow> int" where
  "SecFromTime t = (t div 1000) mod 60"

definition civil_from_days :: "int \<Rightarrow> int \<times> int \<times> int" where
  "civil_from_days z =
     (let z' = z + 719468;
          era = z' div 146097;
          doe = z' mod 146097;
          yoe = (doe - doe div 1460 + doe div 36524 - doe div 146096) div 365;
          doy = doe - (365 * yoe + yoe div 4 - yoe div 100);
          mp = (5 * doy + 2) div 153;
          d = doy - (153 * mp + 2) div 5 + 1;
          m = (if mp < 10 then mp + 3 else mp - 9);
          y = yoe + era * 400 + (if m \<le> 2 then 1 else 0)
      in (y, m - 1, d))"

definition YearFromTime :: "int \<Rightarrow> int" where
  "YearFromTime t = fst (civil_from_days (Day t))"

definition MonthFromTime :: "int \<Rightarrow> int" where
  "MonthFromTime t = fst (snd (civil_from_days (Day t)))"

definition DateFromTime :: "int \<Rightarrow> int" where
  "DateFromTime t = snd (snd (civil_from_days (Day t)))"

text \<open>The decimal digits of a number, and the same with zeros in front up to a length.\<close>

definition digit :: "nat \<Rightarrow> char" where
  "digit n = ''0123456789'' ! (n mod 10)"

function ToString :: "nat \<Rightarrow> string" where
  "ToString n = (if n < 10 then [digit n] else ToString (n div 10) @ [digit n])"
  by pat_completeness auto
termination
  by (relation "measure id") auto

declare ToString.simps [simp del]

definition ToZeroPaddedDecimalString :: "nat \<Rightarrow> nat \<Rightarrow> string" where
  "ToZeroPaddedDecimalString n minLength =
     (let S = ToString n in replicate (minLength - length S) (CHR ''0'') @ S)"

text \<open>
  \<^verbatim>\<open>new Date(tv).toUTCString()\<close> (ECMA-262, 21.4.4.43): week day, day, month, year and time
  of day, as in \<^verbatim>\<open>Tue, 03 Nov 2026 00:00:00 GMT\<close>; a time value out of the range of
  \<^verbatim>\<open>TimeClip\<close> is not a date.
\<close>

definition toUTCString :: "int \<Rightarrow> string" where
  "toUTCString tv =
     (if \<bar>tv\<bar> > 8640000000000000 then ''Invalid Date''
      else
        take 3 (drop (3 * nat (WeekDay tv)) ''SunMonTueWedThuFriSat'') @ '', ''
        @ ToZeroPaddedDecimalString (nat (DateFromTime tv)) 2 @ '' ''
        @ take 3 (drop (3 * nat (MonthFromTime tv)) ''JanFebMarAprMayJunJulAugSepOctNovDec'') @ '' ''
        @ (if YearFromTime tv < 0 then ''-'' else [])
        @ ToZeroPaddedDecimalString (nat \<bar>YearFromTime tv\<bar>) 4 @ '' ''
        @ ToZeroPaddedDecimalString (nat (HourFromTime tv)) 2 @ '':''
        @ ToZeroPaddedDecimalString (nat (MinFromTime tv)) 2 @ '':''
        @ ToZeroPaddedDecimalString (nat (SecFromTime tv)) 2 @ '' GMT'')"


section \<open>The document: root element, location and cookie jar\<close>

text \<open>
  The root element as the code touches it: its class list (a \<^verbatim>\<open>DOMTokenList\<close>: ordered,
  without duplicates) and its other attributes, by name.
\<close>

record Element =
  classList :: "string list"
  attributes :: "(string \<times> string) list"

text \<open>
  A cookie as the browser keeps it (RFC 6265, 5.3): its name and value, the domain and the
  path it is for, and its flags. The jar holds the cookies of the browser that have not
  expired, oldest first. Expiry is not modelled: the clock of a page does not move, the code
  writes every cookie with a date 365 days after the clock, and the attributes \<^verbatim>\<open>Expires\<close>
  and \<^verbatim>\<open>Max-Age\<close> of a cookie written are read past.
\<close>

record Cookie =
  cookie_name :: string
  cookie_value :: string
  cookie_domain :: string
  host_only :: bool
  cookie_path :: string
  secure_only :: bool
  http_only :: bool

text \<open>
  The document: its root element, the parts of its URL that decide which cookies are its own
  (\<^verbatim>\<open>location.protocol\<close>, \<^verbatim>\<open>location.hostname\<close>, \<^verbatim>\<open>location.pathname\<close>), and the jar.
\<close>

record Document =
  documentElement :: Element
  location_protocol :: string
  location_hostname :: string
  location_pathname :: string
  cookie_jar :: "Cookie list"

text \<open>Replace the value of the first entry named \<open>k\<close>, or add the entry at the end.\<close>

fun put :: "string \<Rightarrow> string \<Rightarrow> (string \<times> string) list \<Rightarrow> (string \<times> string) list" where
  "put k v [] = [(k, v)]"
| "put k v ((k', v') # kvs) = (if k' = k then (k, v) # kvs else (k', v') # put k v kvs)"

definition classList_add :: "string \<Rightarrow> Element \<Rightarrow> Element" where
  "classList_add t e = (if t \<in> set (classList e) then e else e\<lparr>classList := classList e @ [t]\<rparr>)"

definition classList_remove :: "string \<Rightarrow> Element \<Rightarrow> Element" where
  "classList_remove t e = e\<lparr>classList := removeAll t (classList e)\<rparr>"

definition setAttribute :: "string \<Rightarrow> string \<Rightarrow> Element \<Rightarrow> Element" where
  "setAttribute n v e = e\<lparr>attributes := put n v (attributes e)\<rparr>"

definition getAttribute :: "string \<Rightarrow> Element \<Rightarrow> string option" where
  "getAttribute n e = map_of (attributes e) n"


section \<open>The cookies of a document (RFC 6265)\<close>

text \<open>
  Whether a cookie is for a path and for a host (5.1.4 and 5.1.3), and the path that a cookie
  gets when it is written without one (5.1.4).
\<close>

definition path_match :: "string \<Rightarrow> string \<Rightarrow> bool" where
  "path_match request_path cpath =
     (cpath = request_path
      \<or> (take (length cpath) request_path = cpath
         \<and> (take 1 (rev cpath) = ''/'' \<or> take 1 (drop (length cpath) request_path) = ''/'')))"

definition is_ip_address :: "string \<Rightarrow> bool" where
  "is_ip_address h = (CHR '':'' \<in> set h \<or> (h \<noteq> [] \<and> list_all (\<lambda>c. c \<in> set ''0123456789.'') h))"

definition domain_match :: "string \<Rightarrow> string \<Rightarrow> bool" where
  "domain_match host d =
     (d = host
      \<or> (length d < length host
         \<and> drop (length host - Suc (length d)) host = CHR ''.'' # d
         \<and> \<not> is_ip_address host))"

definition default_path :: "string \<Rightarrow> string" where
  "default_path uri_path =
     (if take 1 uri_path \<noteq> ''/'' then ''/''
      else if length (filter (\<lambda>c. c = CHR ''/'') uri_path) \<le> 1 then ''/''
      else rev (tl (dropWhile (\<lambda>c. c \<noteq> CHR ''/'') (rev uri_path))))"

text \<open>
  The cookies that a script of the document sees (5.4): those for its host and path, without
  the ones marked \<^verbatim>\<open>HttpOnly\<close>, and without the ones marked \<^verbatim>\<open>Secure\<close> unless the page is
  secure; the cookies of longer paths first, and older before newer among equal lengths.
\<close>

definition cookie_applies :: "Document \<Rightarrow> Cookie \<Rightarrow> bool" where
  "cookie_applies d c =
     ((if host_only c then location_hostname d = cookie_domain c
       else domain_match (location_hostname d) (cookie_domain c))
      \<and> path_match (location_pathname d) (cookie_path c))"

definition script_visible :: "Document \<Rightarrow> Cookie \<Rightarrow> bool" where
  "script_visible d c =
     (cookie_applies d c \<and> (secure_only c \<longrightarrow> location_protocol d = ''https:'') \<and> \<not> http_only c)"

definition visible_cookies :: "Document \<Rightarrow> Cookie list" where
  "visible_cookies d =
     sort_key (\<lambda>c. - int (length (cookie_path c))) (filter (script_visible d) (cookie_jar d))"

text \<open>Reading \<^verbatim>\<open>document.cookie\<close>: the pairs \<^verbatim>\<open>name=value\<close> of these, joined by \<^verbatim>\<open>"; "\<close>.\<close>

definition cookie :: "Document \<Rightarrow> string" where
  "cookie d = join ''; '' (map (\<lambda>c. cookie_name c @ ''='' @ cookie_value c) (visible_cookies d))"

text \<open>
  Assigning to \<^verbatim>\<open>document.cookie\<close>. The text is read as RFC 6265, 5.2, has it: the part
  before the first \<^verbatim>\<open>;\<close> is the pair, each part after it an attribute; the text is dropped
  when the pair has no \<^verbatim>\<open>=\<close> or an empty name; names and values lose the blanks around
  them, and the names of attributes are compared in lower case.
\<close>

definition is_wsp :: "char \<Rightarrow> bool" where
  "is_wsp c = (c = CHR '' '' \<or> c = CHR 0x09)"

definition strip_wsp :: "string \<Rightarrow> string" where
  "strip_wsp s = rev (dropWhile is_wsp (rev (dropWhile is_wsp s)))"

definition to_lower :: "char \<Rightarrow> char" where
  "to_lower c =
     (case map_of (zip ''ABCDEFGHIJKLMNOPQRSTUVWXYZ'' ''abcdefghijklmnopqrstuvwxyz'') c of
        None \<Rightarrow> c
      | Some l \<Rightarrow> l)"

definition parse_attribute :: "string \<Rightarrow> string \<times> string" where
  "parse_attribute av =
     (if CHR ''='' \<in> set av
      then (map to_lower (strip_wsp (takeWhile (\<lambda>c. c \<noteq> CHR ''='') av)),
            strip_wsp (tl (dropWhile (\<lambda>c. c \<noteq> CHR ''='') av)))
      else (map to_lower (strip_wsp av), []))"

text \<open>The value of the last attribute of a name, if there is one.\<close>

definition last_attribute :: "string \<Rightarrow> (string \<times> string) list \<Rightarrow> string option" where
  "last_attribute k avs = map_of (rev avs) k"

text \<open>
  The domain asked for (5.2.3): that of the last \<^verbatim>\<open>Domain\<close> attribute with a value, in lower
  case and without a dot in front; empty when there is none. The path (5.2.4): that of the
  last \<^verbatim>\<open>Path\<close> attribute when it begins with \<^verbatim>\<open>/\<close>, else the default path of the document.
\<close>

definition domain_attribute :: "(string \<times> string) list \<Rightarrow> string" where
  "domain_attribute avs =
     (case last_attribute ''domain'' (filter (\<lambda>(k, v). v \<noteq> []) avs) of
        None \<Rightarrow> []
      | Some v \<Rightarrow> map to_lower (if take 1 v = ''.'' then tl v else v))"

definition path_attribute :: "Document \<Rightarrow> (string \<times> string) list \<Rightarrow> string" where
  "path_attribute d avs =
     (case last_attribute ''path'' avs of
        None \<Rightarrow> default_path (location_pathname d)
      | Some v \<Rightarrow> if take 1 v = ''/'' then v else default_path (location_pathname d))"

text \<open>
  Storing a cookie that a script wrote (5.3, steps 11 and 12): it takes the place, and the
  age, of the cookie of the same name, domain and path, unless that one is marked
  \<^verbatim>\<open>HttpOnly\<close>, which a script cannot replace; else it is the newest cookie of the jar.
\<close>

definition same_cookie :: "Cookie \<Rightarrow> Cookie \<Rightarrow> bool" where
  "same_cookie a b =
     (cookie_name a = cookie_name b \<and> cookie_domain a = cookie_domain b
      \<and> cookie_path a = cookie_path b)"

fun store_cookie :: "Cookie \<Rightarrow> Cookie list \<Rightarrow> Cookie list" where
  "store_cookie c [] = [c]"
| "store_cookie c (old # jar) =
     (if same_cookie old c then (if http_only old then old # jar else c # jar)
      else old # store_cookie c jar)"

text \<open>
  The whole assignment (5.3): a cookie that asks for a domain the host is not part of is
  dropped, and so is one that asks for \<^verbatim>\<open>HttpOnly\<close>; without a domain the cookie is for
  the host alone. (The list of public suffixes, step 5, is left out.)
\<close>

definition cookie_assign :: "string \<Rightarrow> Document \<Rightarrow> Document" where
  "cookie_assign s d =
     (case split s (CHR '';'') of
        [] \<Rightarrow> d
      | pair # unparsed \<Rightarrow>
          if CHR ''='' \<notin> set pair then d
          else
            let n = strip_wsp (takeWhile (\<lambda>c. c \<noteq> CHR ''='') pair);
                v = strip_wsp (tl (dropWhile (\<lambda>c. c \<noteq> CHR ''='') pair));
                avs = map parse_attribute unparsed;
                dom = domain_attribute avs
            in if n = [] then d
               else if dom \<noteq> [] \<and> \<not> domain_match (location_hostname d) dom then d
               else if ''httponly'' \<in> set (map fst avs) then d
               else d\<lparr>cookie_jar :=
                      store_cookie
                        \<lparr>cookie_name = n, cookie_value = v,
                         cookie_domain = (if dom = [] then location_hostname d else dom),
                         host_only = (dom = []),
                         cookie_path = path_attribute d avs,
                         secure_only = (''secure'' \<in> set (map fst avs)),
                         http_only = False\<rparr>
                        (cookie_jar d)\<rparr>)"


section \<open>The page: store, document, provider, and the record of what was done\<close>

text \<open>
  A listener is a function object, compared by identity (\<^verbatim>\<open>indexOf\<close> uses \<^verbatim>\<open>===\<close>).
  \<open>ProviderSubscription n\<close> is the closure the provider's effect creates on its \<open>n\<close>-th
  run (preferences-provider, lines 42 to 47); \<open>ClientCallback n\<close> is any other closure
  handed to \<^verbatim>\<open>subscribe\<close>. What a client closure does to the store when it is invoked is
  its list of actions: calls of \<^verbatim>\<open>subscribe\<close> and of the unsubscribe functions of client
  closures. A closure that calls \<^verbatim>\<open>setState\<close> from inside a notification is not modelled
  (the recursion is unbounded, and the closures of this repository do not do it).
\<close>

datatype listener = ProviderSubscription nat | ClientCallback nat

datatype action = CallSubscribe nat | CallUnsubscribe nat

datatype event =
    StoreAssign ThemePreferences
  | Invoke listener
  | UnsubscribeCall listener
  | ClassListAdd string
  | ClassListRemove string
  | SetAttribute string string
  | CookieAssign string
  | SetPreferences ThemePreferences
  | SetIsHydrated bool

record PreferencesStore =
  state :: ThemePreferences
  listeners :: "listener list"

text \<open>
  The state cells of the one provider component: \<open>mounted\<close> is false until its first
  render; \<open>subscriptions\<close> counts the closures its effect has created; \<open>cleanup\<close> is the
  listener that the unsubscribe function returned by the last effect run removes.
\<close>

record PreferencesProvider =
  mounted :: bool
  preferences :: ThemePreferences
  isHydrated :: bool
  subscriptions :: nat
  cleanup :: "listener option"

record world =
  preferencesStore :: PreferencesStore
  document :: Document
  provider :: PreferencesProvider
  client_code :: "nat \<Rightarrow> action list"
  now :: int
  trace :: "event list"

definition log :: "event \<Rightarrow> world \<Rightarrow> world" where
  "log e w = w\<lparr>trace := trace w @ [e]\<rparr>"

definition html_classList_add :: "string \<Rightarrow> world \<Rightarrow> world" where
  "html_classList_add t w =
     log (ClassListAdd t)
       (w\<lparr>document := (document w)\<lparr>documentElement :=
            classList_add t (documentElement (document w))\<rparr>\<rparr>)"

definition html_classList_remove :: "string \<Rightarrow> world \<Rightarrow> world" where
  "html_classList_remove t w =
     log (ClassListRemove t)
       (w\<lparr>document := (document w)\<lparr>documentElement :=
            classList_remove t (documentElement (document w))\<rparr>\<rparr>)"

definition html_setAttribute :: "string \<Rightarrow> string \<Rightarrow> world \<Rightarrow> world" where
  "html_setAttribute n v w =
     log (SetAttribute n v)
       (w\<lparr>document := (document w)\<lparr>documentElement :=
            setAttribute n v (documentElement (document w))\<rparr>\<rparr>)"

definition document_cookie_assign :: "string \<Rightarrow> world \<Rightarrow> world" where
  "document_cookie_assign s w =
     log (CookieAssign s) (w\<lparr>document := cookie_assign s (document w)\<rparr>)"


section \<open>theme-utils\<close>

definition updateThemeMode :: "ThemeMode \<Rightarrow> world \<Rightarrow> world" where
  "updateThemeMode m w =
     (if m = ''dark'' then html_classList_add ''dark'' w else html_classList_remove ''dark'' w)"

definition updateThemePreset :: "ThemePreset \<Rightarrow> world \<Rightarrow> world" where
  "updateThemePreset p w = html_setAttribute ''data-theme-preset'' p w"

definition updateTheme :: "ThemePreferences \<Rightarrow> world \<Rightarrow> world" where
  "updateTheme prefs w = updateThemePreset (preset prefs) (updateThemeMode (mode prefs) w)"

definition setValueToCookie :: "string \<Rightarrow> string \<Rightarrow> int \<Rightarrow> world \<Rightarrow> world" where
  "setValueToCookie name val days w =
     (let expires = now w + days * 24 * 60 * 60 * 1000
      in document_cookie_assign
           (name @ ''='' @ val @ '';expires='' @ toUTCString expires @ '';path=/'') w)"

text \<open>The \<^verbatim>\<open>while\<close> loop of \<^verbatim>\<open>getValueFromCookie\<close>.\<close>

function skip_spaces :: "string \<Rightarrow> string" where
  "skip_spaces c = (if charAt c 0 = '' '' then skip_spaces (substring c 1 (length c)) else c)"
  by pat_completeness auto
termination
  by (relation "measure length") (auto simp: charAt_def substring_def split: if_splits)

declare skip_spaces.simps [simp del]

text \<open>The \<^verbatim>\<open>for\<close> loop of \<^verbatim>\<open>getValueFromCookie\<close>, over the segments still to be read.\<close>

fun scan :: "string \<Rightarrow> string list \<Rightarrow> string option" where
  "scan nameEQ [] = None"
| "scan nameEQ (seg # ca) =
     (let c = skip_spaces seg
      in if indexOf c nameEQ = 0 then Some (substring c (length nameEQ) (length c))
         else scan nameEQ ca)"

text \<open>
  The first argument is what the function sees of the global \<^verbatim>\<open>document\<close>: \<open>None\<close> when
  \<^verbatim>\<open>typeof document === "undefined"\<close>, else the text that \<^verbatim>\<open>document.cookie\<close> reads.
\<close>

definition getValueFromCookie :: "string option \<Rightarrow> string \<Rightarrow> string option" where
  "getValueFromCookie document_cookie name =
     (case document_cookie of
        None \<Rightarrow> None
      | Some header \<Rightarrow> scan (name @ ''='') (split header (CHR '';'')))"

definition saveThemePreferences :: "ThemePreferences \<Rightarrow> world \<Rightarrow> world" where
  "saveThemePreferences prefs w =
     setValueToCookie ''theme-preset'' (preset prefs) 365
       (setValueToCookie ''theme-mode'' (mode prefs) 365 w)"

text \<open>\<^verbatim>\<open>x || d\<close> on a string or null: \<open>d\<close> when \<open>x\<close> is null or the empty string.\<close>

definition or_else :: "string option \<Rightarrow> string \<Rightarrow> string" where
  "or_else x d = (case x of None \<Rightarrow> d | Some s \<Rightarrow> if s = [] then d else s)"

definition loadThemePreferences :: "world \<Rightarrow> ThemePreferences" where
  "loadThemePreferences w =
     \<lparr>mode = or_else (getValueFromCookie (Some (cookie (document w))) ''theme-mode'') ''light'',
      preset =
        or_else (getValueFromCookie (Some (cookie (document w))) ''theme-preset'') ''default''\<rparr>"


section \<open>The preferences store (preferences-store.ts)\<close>

text \<open>\<^verbatim>\<open>xs.indexOf(x)\<close> on an array: the first index holding \<open>x\<close>, or -1.\<close>

fun array_indexOf :: "'a list \<Rightarrow> 'a \<Rightarrow> int" where
  "array_indexOf [] x = - 1"
| "array_indexOf (y # ys) x =
     (if y = x then 0 else (let r = array_indexOf ys x in if r < 0 then - 1 else r + 1))"

text \<open>\<^verbatim>\<open>xs.splice(i, 1)\<close>, for the array it leaves.\<close>

definition splice1 :: "'a list \<Rightarrow> nat \<Rightarrow> 'a list" where
  "splice1 xs i = take i xs @ drop (Suc i) xs"

definition getState :: "world \<Rightarrow> ThemePreferences" where
  "getState w = state (preferencesStore w)"

definition subscribe :: "listener \<Rightarrow> world \<Rightarrow> world" where
  "subscribe l w =
     w\<lparr>preferencesStore := (preferencesStore w)\<lparr>listeners := listeners (preferencesStore w) @ [l]\<rparr>\<rparr>"

text \<open>The function that \<^verbatim>\<open>subscribe(l)\<close> returns, when it is called.\<close>

definition unsubscribe :: "listener \<Rightarrow> world \<Rightarrow> world" where
  "unsubscribe l w =
     (let w1 = log (UnsubscribeCall l) w;
          index = array_indexOf (listeners (preferencesStore w1)) l
      in if index > - 1
         then w1\<lparr>preferencesStore := (preferencesStore w1)\<lparr>listeners :=
                  splice1 (listeners (preferencesStore w1)) (nat index)\<rparr>\<rparr>
         else w1)"

text \<open>The React state setters of the provider; a setter of an unmounted component does nothing.\<close>

definition setPreferences :: "ThemePreferences \<Rightarrow> world \<Rightarrow> world" where
  "setPreferences p w =
     log (SetPreferences p)
       (if mounted (provider w) then w\<lparr>provider := (provider w)\<lparr>preferences := p\<rparr>\<rparr> else w)"

definition setIsHydrated :: "bool \<Rightarrow> world \<Rightarrow> world" where
  "setIsHydrated b w =
     log (SetIsHydrated b)
       (if mounted (provider w) then w\<lparr>provider := (provider w)\<lparr>isHydrated := b\<rparr>\<rparr> else w)"

text \<open>The closure the provider subscribes (preferences-provider, lines 42 to 47).\<close>

definition provider_subscription :: "world \<Rightarrow> world" where
  "provider_subscription w =
     (let newPreferences = getState w;
          w1 = setPreferences newPreferences w;
          w2 = updateTheme newPreferences w1
      in saveThemePreferences newPreferences w2)"

fun run_action :: "action \<Rightarrow> world \<Rightarrow> world" where
  "run_action (CallSubscribe n) w = subscribe (ClientCallback n) w"
| "run_action (CallUnsubscribe n) w = unsubscribe (ClientCallback n) w"

text \<open>\<^verbatim>\<open>listener()\<close>.\<close>

definition call :: "listener \<Rightarrow> world \<Rightarrow> world" where
  "call l w =
     (let w1 = log (Invoke l) w
      in case l of
           ProviderSubscription n \<Rightarrow> provider_subscription w1
         | ClientCallback n \<Rightarrow> fold run_action (client_code w1 n) w1)"

text \<open>
  \<^verbatim>\<open>this.listeners.forEach(listener => listener())\<close>: \<^verbatim>\<open>forEach\<close> reads the length once,
  then visits the indices \<open>k < len\<close> in order, calling the element it finds at index \<open>k\<close>
  of the array as it is by then, and passing over an index the array no longer has.
\<close>

function forEach :: "nat \<Rightarrow> nat \<Rightarrow> world \<Rightarrow> world" where
  "forEach k len w =
     (if k < len
      then (if k < length (listeners (preferencesStore w))
            then forEach (Suc k) len (call (listeners (preferencesStore w) ! k) w)
            else forEach (Suc k) len w)
      else w)"
  by pat_completeness auto
termination
  by (relation "measure (\<lambda>(k, len, w). len - k)") auto

declare forEach.simps [simp del]

definition setState :: "PartialThemePreferences \<Rightarrow> world \<Rightarrow> world" where
  "setState newState w =
     (let s = spread (state (preferencesStore w)) newState;
          w1 = log (StoreAssign s) (w\<lparr>preferencesStore := (preferencesStore w)\<lparr>state := s\<rparr>\<rparr>)
      in forEach 0 (length (listeners (preferencesStore w1))) w1)"

definition setThemeMode :: "ThemeMode \<Rightarrow> world \<Rightarrow> world" where
  "setThemeMode m w = setState \<lparr>mode_opt = Some m, preset_opt = None\<rparr> w"

definition setThemePreset :: "ThemePreset \<Rightarrow> world \<Rightarrow> world" where
  "setThemePreset p w = setState \<lparr>mode_opt = None, preset_opt = Some p\<rparr> w"

definition setTheme :: "ThemePreferences \<Rightarrow> world \<Rightarrow> world" where
  "setTheme prefs w = setState \<lparr>mode_opt = Some (mode prefs), preset_opt = Some (preset prefs)\<rparr> w"

text \<open>
  The hook of preferences-store.ts, for what it returns on a render: the state the store
  has at the first render (the three setters it also returns are the store's own). It reads
  the store of the module and consumes no context.
\<close>

record PreferencesState =
  theme :: ThemePreferences

definition store_usePreferences :: "world \<Rightarrow> string + PreferencesState" where
  "store_usePreferences w = Inr \<lparr>theme = getState w\<rparr>"

text \<open>The module's singleton as the module creates it, on a page where nothing has run.\<close>

definition new_PreferencesStore :: PreferencesStore where
  "new_PreferencesStore = \<lparr>state = DEFAULT_THEME_PREFERENCES, listeners = []\<rparr>"


section \<open>The provider (preferences-provider.tsx)\<close>

text \<open>
  The context value of one render. Its \<^verbatim>\<open>preferences\<close> is the state cell as that render
  read it; its three functions are closures of the same render, given below as functions of
  the value that holds them.
\<close>

record PreferencesContextValue =
  ctx_preferences :: ThemePreferences

text \<open>
  What a render of the provider returns: its children in a hidden \<^verbatim>\<open>div\<close>, with no context
  around them, or its children inside \<^verbatim>\<open>PreferencesContext.Provider\<close>.
\<close>

datatype rendered = Hidden | Provided PreferencesContextValue

text \<open>The default of the optional prop \<^verbatim>\<open>initialPreferences\<close>.\<close>

definition initialPreferences_of :: "ThemePreferences option \<Rightarrow> ThemePreferences" where
  "initialPreferences_of prop = (case prop of None \<Rightarrow> DEFAULT_THEME_PREFERENCES | Some p \<Rightarrow> p)"

text \<open>The first render: the two \<^verbatim>\<open>useState\<close> cells get their initial values.\<close>

definition first_render :: "ThemePreferences option \<Rightarrow> world \<Rightarrow> world" where
  "first_render prop w =
     w\<lparr>provider := (provider w)\<lparr>mounted := True, preferences := initialPreferences_of prop,
          isHydrated := False, cleanup := None\<rparr>\<rparr>"

text \<open>The body of the effect (lines 31 to 50), and the unsubscribe function it returns.\<close>

definition effect :: "ThemePreferences option \<Rightarrow> world \<Rightarrow> world" where
  "effect prop w =
     (let initialPreferences = initialPreferences_of prop;
          w1 = setTheme initialPreferences w;
          w2 = setPreferences initialPreferences w1;
          w3 = updateTheme initialPreferences w2;
          w4 = setIsHydrated True w3;
          l = ProviderSubscription (subscriptions (provider w4));
          w5 = subscribe l w4
      in w5\<lparr>provider := (provider w5)\<lparr>subscriptions := Suc (subscriptions (provider w5)),
              cleanup := Some l\<rparr>\<rparr>)"

definition effect_cleanup :: "world \<Rightarrow> world" where
  "effect_cleanup w =
     (case cleanup (provider w) of
        None \<Rightarrow> w
      | Some l \<Rightarrow> (let w1 = unsubscribe l w in w1\<lparr>provider := (provider w1)\<lparr>cleanup := None\<rparr>\<rparr>))"

text \<open>A render of the provider (lines 65 to 81).\<close>

definition PreferencesProvider :: "world \<Rightarrow> rendered" where
  "PreferencesProvider w =
     (if \<not> isHydrated (provider w) then Hidden
      else Provided \<lparr>ctx_preferences = preferences (provider w)\<rparr>)"

text \<open>
  \<^verbatim>\<open>useContext(PreferencesContext)\<close> in a child of the provider, with no other provider
  above: the default \<^verbatim>\<open>undefined\<close> unless the render put the children inside the context.
\<close>

definition useContext :: "rendered option \<Rightarrow> PreferencesContextValue option" where
  "useContext ancestor =
     (case ancestor of None \<Rightarrow> None | Some Hidden \<Rightarrow> None | Some (Provided v) \<Rightarrow> Some v)"

definition usePreferences :: "rendered option \<Rightarrow> string + PreferencesContextValue" where
  "usePreferences ancestor =
     (case useContext ancestor of
        None \<Rightarrow> Inl ''usePreferences must be used within a PreferencesProvider''
      | Some context \<Rightarrow> Inr context)"

definition provider_setThemeMode :: "ThemeMode \<Rightarrow> world \<Rightarrow> world" where
  "provider_setThemeMode m w = setThemeMode m w"

definition provider_setThemePreset :: "ThemePreset \<Rightarrow> world \<Rightarrow> world" where
  "provider_setThemePreset p w = setThemePreset p w"

definition toggleTheme :: "PreferencesContextValue \<Rightarrow> world \<Rightarrow> world" where
  "toggleTheme v w =
     (let newMode = (if mode (ctx_preferences v) = ''light'' then ''dark'' else ''light'')
      in provider_setThemeMode newMode w)"

text \<open>
  The names the specification gives to the states of the provider: not yet rendered;
  rendered with \<^verbatim>\<open>isHydrated\<close> false; \<^verbatim>\<open>isHydrated\<close> true.
\<close>

datatype phase = Uninitialized | Hydrating | Ready

definition phase_of :: "world \<Rightarrow> phase" where
  "phase_of w =
     (if \<not> mounted (provider w) then Uninitialized
      else if isHydrated (provider w) then Ready else Hydrating)"

text \<open>
  What can happen on the page while the provider stays mounted: a consumer calls a function
  of the context value of the latest render (there is none to call while the render is
  hidden); the prop changes and the effect runs again, after its cleanup; other code
  calls the store.
\<close>

datatype step =
    CallSetThemeMode ThemeMode
  | CallSetThemePreset ThemePreset
  | CallToggleTheme
  | EffectAgain "ThemePreferences option"
  | StoreSetState PartialThemePreferences
  | StoreSubscribe nat
  | StoreUnsubscribe nat

fun session_step :: "step \<Rightarrow> world \<Rightarrow> world" where
  "session_step (CallSetThemeMode m) w =
     (case PreferencesProvider w of Hidden \<Rightarrow> w | Provided v \<Rightarrow> provider_setThemeMode m w)"
| "session_step (CallSetThemePreset p) w =
     (case PreferencesProvider w of Hidden \<Rightarrow> w | Provided v \<Rightarrow> provider_setThemePreset p w)"
| "session_step CallToggleTheme w =
     (case PreferencesProvider w of Hidden \<Rightarrow> w | Provided v \<Rightarrow> toggleTheme v w)"
| "session_step (EffectAgain prop) w = effect prop (effect_cleanup w)"
| "session_step (StoreSetState newState) w = setState newState w"
| "session_step (StoreSubscribe n) w = subscribe (ClientCallback n) w"
| "session_step (StoreUnsubscribe n) w = unsubscribe (ClientCallback n) w"

text \<open>Calls on the store alone, as a client makes them one after the other.\<close>

datatype store_call =
    SetThemeMode ThemeMode
  | SetThemePreset ThemePreset
  | SetState PartialThemePreferences
  | Subscribe listener
  | Unsubscribe listener

fun perform :: "store_call \<Rightarrow> world \<Rightarrow> world" where
  "perform (SetThemeMode m) w = setThemeMode m w"
| "perform (SetThemePreset p) w = setThemePreset p w"
| "perform (SetState newState) w = setState newState w"
| "perform (Subscribe l) w = subscribe l w"
| "perform (Unsubscribe l) w = unsubscribe l w"


section \<open>Cookie headers, to say what a scan of one returns\<close>

text \<open>
  A header given by its cookies in order, each a name and a value with the number of spaces
  that stand before it in its segment; the segments are separated by \<^verbatim>\<open>;\<close> alone.
  \<open>first_named\<close> is the value of the first cookie of a name. The text of a cookie is well
  formed when the name has no \<^verbatim>\<open>;\<close> and no \<^verbatim>\<open>=\<close> and does not begin with a space, and the
  value has no \<^verbatim>\<open>;\<close>.
\<close>

definition segment :: "nat \<times> string \<times> string \<Rightarrow> string" where
  "segment c = (case c of (k, n, v) \<Rightarrow> replicate k (CHR '' '') @ n @ ''='' @ v)"

definition header_of :: "(nat \<times> string \<times> string) list \<Rightarrow> string" where
  "header_of cs = join '';'' (map segment cs)"

fun first_named :: "string \<Rightarrow> (nat \<times> string \<times> string) list \<Rightarrow> string option" where
  "first_named name [] = None"
| "first_named name ((k, n, v) # cs) = (if n = name then Some v else first_named name cs)"

definition cookie_text_ok :: "nat \<times> string \<times> string \<Rightarrow> bool" where
  "cookie_text_ok c =
     (case c of (k, n, v) \<Rightarrow>
        CHR '';'' \<notin> set n \<and> CHR ''='' \<notin> set n \<and> take 1 n \<noteq> '' '' \<and> CHR '';'' \<notin> set v)"

text \<open>
  What \<^verbatim>\<open>document.cookie\<close> reads is the header of the cookies that the script sees, with one
  space after each separator.
\<close>

fun spaced :: "(string \<times> string) list \<Rightarrow> (nat \<times> string \<times> string) list" where
  "spaced [] = []"
| "spaced ((n, v) # kvs) = (0, n, v) # map (\<lambda>(n, v). (1, n, v)) kvs"

definition cookie_pairs :: "Document \<Rightarrow> (string \<times> string) list" where
  "cookie_pairs d = map (\<lambda>c. (cookie_name c, cookie_value c)) (visible_cookies d)"

text \<open>
  A jar as a browser keeps it: the text of each cookie is well formed, and there is one
  cookie at most for a name, a domain and a path (\<open>cookie_assign\<close> keeps a jar so).
\<close>

definition cookie_key :: "Cookie \<Rightarrow> string \<times> string \<times> string" where
  "cookie_key c = (cookie_name c, cookie_domain c, cookie_path c)"

definition jar_ok :: "Cookie list \<Rightarrow> bool" where
  "jar_ok jar =
     (list_all (\<lambda>c. cookie_text_ok (0, cookie_name c, cookie_value c)) jar
      \<and> distinct (map cookie_key jar))"

text \<open>
  The cookie that \<^verbatim>\<open>setValueToCookie\<close> leaves in the jar of a document: for the host alone,
  with the path \<^verbatim>\<open>/\<close>, neither \<^verbatim>\<open>Secure\<close> nor \<^verbatim>\<open>HttpOnly\<close>.
\<close>

definition written_cookie :: "Document \<Rightarrow> string \<Rightarrow> string \<Rightarrow> Cookie" where
  "written_cookie d n v =
     \<lparr>cookie_name = n, cookie_value = v, cookie_domain = location_hostname d, host_only = True,
      cookie_path = ''/'', secure_only = False, http_only = False\<rparr>"

text \<open>The document after \<^verbatim>\<open>saveThemePreferences(p)\<close>, for a valid \<open>p\<close>: both cookies stored.\<close>

definition saved :: "ThemePreferences \<Rightarrow> Document \<Rightarrow> Document" where
  "saved p d =
     d\<lparr>cookie_jar :=
         store_cookie (written_cookie d ''theme-preset'' (preset p))
           (store_cookie (written_cookie d ''theme-mode'' (mode p)) (cookie_jar d))\<rparr>"

text \<open>
  The two theme cookies are the document's to write and to read: a cookie of the path \<^verbatim>\<open>/\<close>
  is for the document, and every cookie of the jar that is named \<^verbatim>\<open>theme-mode\<close> or
  \<^verbatim>\<open>theme-preset\<close> and is for the host and the path of the document is one that its scripts
  see, with the host as its domain and \<^verbatim>\<open>/\<close> as its path: it is the cookie that
  \<^verbatim>\<open>setValueToCookie\<close> replaces.
\<close>

definition theme_cookies_own :: "Document \<Rightarrow> bool" where
  "theme_cookies_own d =
     (path_match (location_pathname d) ''/''
      \<and> list_all
          (\<lambda>c. (cookie_name c = ''theme-mode'' \<or> cookie_name c = ''theme-preset'')
                \<and> cookie_applies d c \<longrightarrow>
                script_visible d c \<and> cookie_domain c = location_hostname d \<and> cookie_path c = ''/'')
          (cookie_jar d))"

text \<open>
  A page on which nothing has run yet, for examples: the store as its module creates it, the
  empty document of \<^verbatim>\<open>https://example.com/\<close> with no cookie, the provider not rendered, the
  client closures with the code given, and the clock at the start of 3 November 2025.
\<close>

definition new_page :: "(nat \<Rightarrow> action list) \<Rightarrow> world" where
  "new_page code =
     \<lparr>preferencesStore = new_PreferencesStore,
      document = \<lparr>documentElement = \<lparr>classList = [], attributes = []\<rparr>,
                  location_protocol = ''https:'', location_hostname = ''example.com'',
                  location_pathname = ''/'', cookie_jar = []\<rparr>,
      provider = \<lparr>mounted = False, preferences = DEFAULT_THEME_PREFERENCES, isHydrated = False,
                  subscriptions = 0, cleanup = None\<rparr>,
      client_code = code,
      now = 1762128000000,
      trace = []\<rparr>"

text \<open>
  The last mode and the last preset that a sequence of calls passes to the store, or the
  value given when no call of the sequence passes one.
\<close>

fun last_mode :: "ThemeMode \<Rightarrow> store_call list \<Rightarrow> ThemeMode" where
  "last_mode m [] = m"
| "last_mode m (SetThemeMode m' # cs) = last_mode m' cs"
| "last_mode m (SetState newState # cs) =
     last_mode (case mode_opt newState of None \<Rightarrow> m | Some m' \<Rightarrow> m') cs"
| "last_mode m (c # cs) = last_mode m cs"

fun last_preset :: "ThemePreset \<Rightarrow> store_call list \<Rightarrow> ThemePreset" where
  "last_preset p [] = p"
| "last_preset p (SetThemePreset p' # cs) = last_preset p' cs"
| "last_preset p (SetState newState # cs) =
     last_preset (case preset_opt newState of None \<Rightarrow> p | Some p' \<Rightarrow> p') cs"
| "last_preset p (c # cs) = last_preset p cs"

text \<open>
  In a record of events, no invocation of the listener \<open>f\<close> comes after a call of the
  unsubscribe function of \<open>f\<close>.
\<close>

fun quiet_after :: "listener \<Rightarrow> event list \<Rightarrow> bool" where
  "quiet_after f [] = True"
| "quiet_after f (e # es) = ((e = UnsubscribeCall f \<longrightarrow> Invoke f \<notin> set es) \<and> quiet_after f es)"

text \<open>
  The invariant behind it, on the events after the first \<open>n\<close>: \<open>f\<close> is in the array at most
  once, and not at all once its unsubscribe function has been called.
\<close>

definition unsubscribed_stays_out :: "listener \<Rightarrow> nat \<Rightarrow> world \<Rightarrow> bool" where
  "unsubscribed_stays_out f n w =
     (n \<le> length (trace w)
      \<and> count_list (listeners (preferencesStore w)) f \<le> 1
      \<and> (UnsubscribeCall f \<in> set (drop n (trace w)) \<longrightarrow> f \<notin> set (listeners (preferencesStore w)))
      \<and> quiet_after f (drop n (trace w)))"

text \<open>No client closure subscribes the listener \<open>f\<close>.\<close>

definition never_subscribes :: "(nat \<Rightarrow> action list) \<Rightarrow> listener \<Rightarrow> bool" where
  "never_subscribes code f = (\<forall>n m. f = ClientCallback m \<longrightarrow> CallSubscribe m \<notin> set (code n))"

text \<open>The events of \<^verbatim>\<open>updateTheme(p)\<close> and of \<^verbatim>\<open>saveThemePreferences(p)\<close> on the page \<open>w\<close>.\<close>

definition updateTheme_events :: "ThemePreferences \<Rightarrow> event list" where
  "updateTheme_events p =
     [if mode p = ''dark'' then ClassListAdd ''dark'' else ClassListRemove ''dark'',
      SetAttribute ''data-theme-preset'' (preset p)]"

definition cookie_text :: "world \<Rightarrow> string \<Rightarrow> string \<Rightarrow> string" where
  "cookie_text w name val =
     name @ ''='' @ val @ '';expires='' @ toUTCString (now w + 365 * 24 * 60 * 60 * 1000)
       @ '';path=/''"

definition saveThemePreferences_events :: "world \<Rightarrow> ThemePreferences \<Rightarrow> event list" where
  "saveThemePreferences_events w p =
     [CookieAssign (cookie_text w ''theme-mode'' (mode p)),
      CookieAssign (cookie_text w ''theme-preset'' (preset p))]"

text \<open>
  No listener of the array calls the store from its callback: the array is the same before,
  during and after a notification.
\<close>

definition calls_nothing :: "(nat \<Rightarrow> action list) \<Rightarrow> listener \<Rightarrow> bool" where
  "calls_nothing code l =
     (case l of ProviderSubscription n \<Rightarrow> True | ClientCallback n \<Rightarrow> code n = [])"

definition inert :: "world \<Rightarrow> bool" where
  "inert w = list_all (calls_nothing (client_code w)) (listeners (preferencesStore w))"

text \<open>The events of one invocation of the listener \<open>l\<close> on the page \<open>w\<close>, the store holding \<open>p\<close>.\<close>

definition notification :: "world \<Rightarrow> ThemePreferences \<Rightarrow> listener \<Rightarrow> event list" where
  "notification w p l =
     Invoke l #
       (case l of
          ProviderSubscription n \<Rightarrow>
            SetPreferences p # updateTheme_events p @ saveThemePreferences_events w p
        | ClientCallback n \<Rightarrow> [])"

text \<open>
  The page once the provider has rendered and its effect has run, with no other code on the
  page: the layout passes the preferences that the server read from the cookies.
\<close>

definition hydrated_page :: "ThemePreferences option \<Rightarrow> world" where
  "hydrated_page prop = effect prop (first_render prop (new_page (\<lambda>n. [])))"

text \<open>
  Two pages for examples: one whose client closures do nothing, and one whose closure 0
  calls its own unsubscribe function when it is invoked (a listener for one notification).
\<close>

definition blank_page :: world where
  "blank_page = new_page (\<lambda>n. [])"

definition unsubscribes_itself :: "nat \<Rightarrow> action list" where
  "unsubscribes_itself n = (if n = 0 then [CallUnsubscribe 0] else [])"

text \<open>
  Two more: the page \<^verbatim>\<open>https://example.com/app/settings\<close>, on which a script has written
  the cookie \<^verbatim>\<open>theme-mode=light\<close> for the path \<^verbatim>\<open>/app\<close>; and a page whose provider is
  hydrated with the preferences dark and brutalist, and on which a consumer has then set
  the preset soft-pop.
\<close>

definition settings_page :: world where
  "settings_page =
     document_cookie_assign ''theme-mode=light;path=/app''
       (blank_page\<lparr>document := (document blank_page)\<lparr>location_pathname := ''/app/settings''\<rparr>\<rparr>)"

definition saved_page :: world where
  "saved_page =
     session_step (CallSetThemePreset ''soft-pop'')
       (hydrated_page (Some \<lparr>mode = ''dark'', preset = ''brutalist''\<rparr>))"

text \<open>
  The provider is rendered and hydrated, a closure of its effect is in the array of listeners,
  its state cell holds the state of the store, and no listener calls the store from its
  callback: the page between two events, once the effect has run.
\<close>

fun is_ProviderSubscription :: "listener \<Rightarrow> bool" where
  "is_ProviderSubscription (ProviderSubscription n) = True"
| "is_ProviderSubscription (ClientCallback n) = False"

definition settled :: "world \<Rightarrow> bool" where
  "settled w =
     (mounted (provider w) \<and> isHydrated (provider w)
      \<and> preferences (provider w) = state (preferencesStore w)
      \<and> list_ex is_ProviderSubscription (listeners (preferencesStore w))
      \<and> inert w)"

text \<open>
  The same without the state cell: the provider is rendered and hydrated, a closure of its
  effect is in the array of listeners, and no listener calls the store from its callback.
\<close>

definition subscribed :: "world \<Rightarrow> bool" where
  "subscribed w =
     (mounted (provider w) \<and> isHydrated (provider w)
      \<and> list_ex is_ProviderSubscription (listeners (preferencesStore w))
      \<and> inert w)"

text \<open>
  The events of one invocation of a listener, as they must be on the page \<open>w\<close> when the
  store holds \<open>p\<close>: for a closure of the provider, the state cell, then the root element,
  then the cookies; for a client closure, calls of unsubscribe functions only.
\<close>

fun is_UnsubscribeCall :: "event \<Rightarrow> bool" where
  "is_UnsubscribeCall (UnsubscribeCall l) = True"
| "is_UnsubscribeCall e = False"

fun invocation_ok :: "world \<Rightarrow> ThemePreferences \<Rightarrow> event list \<Rightarrow> bool" where
  "invocation_ok w p (Invoke (ProviderSubscription n) # es) =
     (es = SetPreferences p # updateTheme_events p @ saveThemePreferences_events w p)"
| "invocation_ok w p (Invoke (ClientCallback n) # es) = list_all is_UnsubscribeCall es"
| "invocation_ok w p es = False"


section \<open>The root element after a theme update\<close>

lemma map_of_put: "map_of (put k v kvs) k = Some v"
  by (induction kvs) auto

lemma put_put: "put k v (put k v kvs) = put k v kvs"
  by (induction kvs) auto

lemma classList_add_twice: "classList_add t (classList_add t e) = classList_add t e"
  by (simp add: classList_add_def)

lemma classList_remove_twice: "classList_remove t (classList_remove t e) = classList_remove t e"
  by (simp add: classList_remove_def)

lemma setAttribute_twice: "setAttribute n v (setAttribute n v e) = setAttribute n v e"
  by (simp add: setAttribute_def put_put)

lemma classList_setAttribute: "classList (setAttribute n v e) = classList e"
  by (simp add: setAttribute_def)

lemma classList_add_setAttribute:
  "classList_add t (setAttribute n v e) = setAttribute n v (classList_add t e)"
  by (simp add: classList_add_def setAttribute_def)

lemma classList_remove_setAttribute:
  "classList_remove t (setAttribute n v e) = setAttribute n v (classList_remove t e)"
  by (simp add: classList_remove_def setAttribute_def)

lemma documentElement_updateTheme:
  "documentElement (document (updateTheme p w)) =
     setAttribute ''data-theme-preset'' (preset p)
       ((if mode p = ''dark'' then classList_add ''dark'' else classList_remove ''dark'')
          (documentElement (document w)))"
  by (simp add: updateTheme_def updateThemePreset_def updateThemeMode_def html_setAttribute_def
      html_classList_add_def html_classList_remove_def log_def)

text \<open>
  Claim C6. After \<^verbatim>\<open>updateTheme(p)\<close>, which is \<^verbatim>\<open>updateThemeMode(p.mode)\<close> followed by
  \<^verbatim>\<open>updateThemePreset(p.preset)\<close>, the root element has the class \<^verbatim>\<open>dark\<close> exactly when
  \<open>p.mode\<close> is \<^verbatim>\<open>dark\<close>, and its attribute \<^verbatim>\<open>data-theme-preset\<close> is \<open>p.preset\<close>; applying
  the same update a second time leaves the root element as it is.
\<close>

theorem updateTheme_root_element:
  "(''dark'' \<in> set (classList (documentElement (document (updateTheme p w))))) = (mode p = ''dark'')
   \<and> getAttribute ''data-theme-preset'' (documentElement (document (updateTheme p w)))
       = Some (preset p)
   \<and> updateTheme p w = updateThemePreset (preset p) (updateThemeMode (mode p) w)
   \<and> documentElement (document (updateTheme p (updateTheme p w)))
       = documentElement (document (updateTheme p w))"
proof -
  have a: "(''dark'' \<in> set (classList (documentElement (document (updateTheme p w)))))
             = (mode p = ''dark'')"
    by (simp add: documentElement_updateTheme classList_setAttribute classList_add_def
        classList_remove_def)
  have b: "getAttribute ''data-theme-preset'' (documentElement (document (updateTheme p w)))
             = Some (preset p)"
    by (simp add: documentElement_updateTheme getAttribute_def setAttribute_def map_of_put)
  have c: "updateTheme p w = updateThemePreset (preset p) (updateThemeMode (mode p) w)"
    by (simp add: updateTheme_def)
  have d: "documentElement (document (updateTheme p (updateTheme p w)))
             = documentElement (document (updateTheme p w))"
    by (simp add: documentElement_updateTheme classList_add_setAttribute
        classList_remove_setAttribute classList_add_twice classList_remove_twice
        setAttribute_twice)
  from a b c d show ?thesis by blast
qed


section \<open>Reading a cookie\<close>

lemma skip_spaces_dropWhile: "skip_spaces c = dropWhile (\<lambda>x. x = CHR '' '') c"
proof (induction c)
  case Nil
  show ?case by (subst skip_spaces.simps) (simp add: charAt_def)
next
  case (Cons a c)
  show ?case by (subst skip_spaces.simps) (simp add: charAt_def substring_def Cons)
qed

lemma substring_to_end: "substring s a (length s) = drop a s"
  by (simp add: substring_def Let_def min_def max_def)

lemma indexOf_0: "(indexOf c x = 0) = (take (length x) c = x)"
  by (cases c) (auto simp: Let_def)

lemma split_from_nosep: "sep \<notin> set xs \<Longrightarrow> split_from sep cur xs = [cur @ xs]"
  by (induction xs arbitrary: cur) auto

lemma split_from_sep:
  "sep \<notin> set xs \<Longrightarrow> split_from sep cur (xs @ sep # ys) = (cur @ xs) # split_from sep [] ys"
  by (induction xs arbitrary: cur) auto

lemma split_join_Cons:
  "\<forall>s \<in> set (x # xs). sep \<notin> set s \<Longrightarrow> split_from sep [] (join [sep] (x # xs)) = x # xs"
proof (induction xs arbitrary: x)
  case Nil
  then show ?case by (simp add: split_from_nosep)
next
  case (Cons y ys)
  have "split_from sep [] (join [sep] (y # ys)) = y # ys"
    using Cons.prems by (intro Cons.IH) simp
  then show ?case using Cons.prems by (simp add: split_from_sep)
qed

lemma split_join:
  "segs \<noteq> [] \<Longrightarrow> \<forall>s \<in> set segs. sep \<notin> set s \<Longrightarrow> split (join [sep] segs) sep = segs"
  by (cases segs) (simp_all add: split_def split_join_Cons del: join.simps)

lemma scan_find:
  "scan nameEQ ca =
     map_option (drop (length nameEQ))
       (find (\<lambda>c. take (length nameEQ) c = nameEQ) (map (dropWhile (\<lambda>x. x = CHR '' '')) ca))"
  by (induction ca) (simp_all add: Let_def skip_spaces_dropWhile indexOf_0 substring_to_end)

lemma dropWhile_segment:
  "take 1 n \<noteq> '' '' \<Longrightarrow>
   dropWhile (\<lambda>x. x = CHR '' '') (replicate k (CHR '' '') @ n @ ''='' @ v) = n @ ''='' @ v"
  by (induction k) (auto simp: dropWhile_append3 split: list.splits, (cases n; simp)+)

lemma name_match:
  assumes "CHR ''='' \<notin> set n" and "CHR ''='' \<notin> set name"
  shows "(take (Suc (length name)) (n @ ''='' @ v) = name @ ''='') = (n = name)"
proof
  assume "n = name"
  then show "take (Suc (length name)) (n @ ''='' @ v) = name @ ''=''" by simp
next
  define s where "s = n @ ''='' @ v"
  define r where "r = drop (Suc (length name)) s"
  assume "take (Suc (length name)) (n @ ''='' @ v) = name @ ''=''"
  then have a: "take (Suc (length name)) s = name @ ''=''" by (simp only: s_def)
  have "s = take (Suc (length name)) s @ r"
    unfolding r_def by (rule append_take_drop_id [symmetric])
  then have "s = (name @ ''='') @ r" by (simp only: a)
  then have eq: "n @ CHR ''='' # v = name @ CHR ''='' # r"
    by (simp add: s_def)
  have "takeWhile (\<lambda>c. c \<noteq> CHR ''='') (n @ CHR ''='' # v) = n"
    using assms(1) by (auto simp: takeWhile_tail)
  moreover have "takeWhile (\<lambda>c. c \<noteq> CHR ''='') (name @ CHR ''='' # r) = name"
    using assms(2) by (auto simp: takeWhile_tail)
  ultimately show "n = name" using eq by simp
qed

lemma first_named_Cons:
  "first_named name (c # cs) =
     (if fst (snd c) = name then Some (snd (snd c)) else first_named name cs)"
  by (cases c) simp

lemma find_segments:
  assumes "list_all cookie_text_ok cs" and "CHR ''='' \<notin> set name"
  shows "map_option (drop (Suc (length name)))
           (find (\<lambda>c. take (Suc (length name)) c = name @ ''='')
              (map (dropWhile (\<lambda>x. x = CHR '' '')) (map segment cs)))
         = first_named name cs"
  using assms(1)
proof (induction cs)
  case Nil
  then show ?case by simp
next
  case (Cons c cs)
  obtain k n v where c: "c = (k, n, v)" by (cases c) auto
  define t where "t = dropWhile (\<lambda>x. x = CHR '' '') (segment c)"
  have ok: "CHR ''='' \<notin> set n" "take 1 n \<noteq> '' ''"
    using Cons.prems by (simp_all add: c cookie_text_ok_def)
  have seg: "t = n @ ''='' @ v"
    unfolding t_def c segment_def using dropWhile_segment [OF ok(2)] by simp
  have m: "(take (Suc (length name)) t = name @ ''='') = (fst (snd c) = name)"
    unfolding seg using name_match [OF ok(1) assms(2), of v] by (simp only: c fst_conv snd_conv)
  have d: "fst (snd c) = name \<Longrightarrow> drop (Suc (length name)) t = snd (snd c)"
    unfolding seg by (simp add: c)
  have IH: "map_option (drop (Suc (length name)))
           (find (\<lambda>c. take (Suc (length name)) c = name @ ''='')
              (map (dropWhile (\<lambda>x. x = CHR '' '')) (map segment cs)))
         = first_named name cs"
    using Cons.prems by (intro Cons.IH) simp
  have "map_option (drop (Suc (length name)))
           (find (\<lambda>c. take (Suc (length name)) c = name @ ''='')
              (t # map (dropWhile (\<lambda>x. x = CHR '' '')) (map segment cs)))
         = first_named name (c # cs)"
    using m d IH by (simp only: find.simps first_named_Cons option.map split: if_splits) simp
  then show ?case by (simp only: t_def list.map)
qed

lemma segment_no_semicolon: "cookie_text_ok c \<Longrightarrow> CHR '';'' \<notin> set (segment c)"
  by (cases c) (auto simp: cookie_text_ok_def segment_def)

lemma getValueFromCookie_find:
  "getValueFromCookie (Some h) name =
     map_option (drop (Suc (length name)))
       (find (\<lambda>c. take (Suc (length name)) c = name @ ''='')
          (map (dropWhile (\<lambda>x. x = CHR '' '')) (split h (CHR '';''))))"
  by (simp add: getValueFromCookie_def scan_find)

lemma getValueFromCookie_header_of:
  assumes "list_all cookie_text_ok cs" and "CHR ''='' \<notin> set name"
  shows "getValueFromCookie (Some (header_of cs)) name = first_named name cs"
proof (cases "cs = []")
  case True
  then show ?thesis
    by (simp add: getValueFromCookie_find header_of_def split_def)
next
  case False
  have "split (join '';'' (map segment cs)) (CHR '';'') = map segment cs"
    using False assms(1) by (intro split_join) (auto simp: list_all_iff segment_no_semicolon)
  then show ?thesis
    using find_segments [OF assms] by (simp add: getValueFromCookie_find header_of_def)
qed

text \<open>
  Claim C4, amended. \<^verbatim>\<open>getValueFromCookie(name)\<close> splits the header on \<^verbatim>\<open>;\<close>, drops the
  leading spaces of each segment, and returns what follows \<^verbatim>\<open>name=\<close> in the first segment
  that begins with it, or null when there is none. For a header of well-formed cookies,
  whatever the number of spaces after each \<^verbatim>\<open>;\<close>, and a name without \<^verbatim>\<open>=\<close>, that is the value
  of the first cookie of that name, and null when no cookie has the name. It returns null
  when there is no document. For the header \<^verbatim>\<open>a=1; theme-mode=dark;theme-preset=tangerine\<close>
  it returns \<^verbatim>\<open>dark\<close> and \<^verbatim>\<open>tangerine\<close>. (Spaces before a \<^verbatim>\<open>;\<close> are not dropped: they stay
  at the end of the value returned.)
\<close>

theorem getValueFromCookie_scan:
  "list_all cookie_text_ok cs \<Longrightarrow> CHR ''='' \<notin> set name \<Longrightarrow>
     getValueFromCookie (Some h) q =
       map_option (drop (Suc (length q)))
         (find (\<lambda>c. take (Suc (length q)) c = q @ ''='')
            (map (dropWhile (\<lambda>x. x = CHR '' '')) (split h (CHR '';''))))
     \<and> getValueFromCookie (Some (header_of cs)) name = first_named name cs
     \<and> getValueFromCookie None q = None
     \<and> getValueFromCookie (Some ''a=1; theme-mode=dark;theme-preset=tangerine'') ''theme-mode''
         = Some ''dark''
     \<and> getValueFromCookie (Some ''a=1; theme-mode=dark;theme-preset=tangerine'') ''theme-preset''
         = Some ''tangerine''
     \<and> getValueFromCookie (Some ''a=1; theme-mode=dark;theme-preset=tangerine'') ''theme''
         = None"
proof -
  assume ok: "list_all cookie_text_ok cs" and name: "CHR ''='' \<notin> set name"
  have a: "getValueFromCookie (Some (header_of cs)) name = first_named name cs"
    using ok name by (rule getValueFromCookie_header_of)
  have b: "getValueFromCookie None q = None"
    by (simp add: getValueFromCookie_def)
  have c: "getValueFromCookie (Some ''a=1; theme-mode=dark;theme-preset=tangerine'') ''theme-mode''
         = Some ''dark''"
    by code_simp
  have d: "getValueFromCookie (Some ''a=1; theme-mode=dark;theme-preset=tangerine'') ''theme-preset''
         = Some ''tangerine''"
    by code_simp
  have e: "getValueFromCookie (Some ''a=1; theme-mode=dark;theme-preset=tangerine'') ''theme''
         = None"
    by code_simp
  from a b c d e getValueFromCookie_find [of h q] show ?thesis by blast
qed

theorem getValueFromCookie_scan_witness:
  "list_all cookie_text_ok
     [(0, ''a'', ''1''), (1, ''theme-mode'', ''dark''), (0, ''theme-preset'', ''tangerine'')]
   \<and> CHR ''='' \<notin> set ''theme-preset''
   \<and> header_of
       [(0, ''a'', ''1''), (1, ''theme-mode'', ''dark''), (0, ''theme-preset'', ''tangerine'')]
       = ''a=1; theme-mode=dark;theme-preset=tangerine''
   \<and> getValueFromCookie
        (Some (header_of
           [(0, ''a'', ''1''), (1, ''theme-mode'', ''dark''), (0, ''theme-preset'', ''tangerine'')]))
        ''theme-preset''
       = Some ''tangerine''"
proof -
  have ok: "list_all cookie_text_ok
     [(0, ''a'', ''1''), (1, ''theme-mode'', ''dark''), (0, ''theme-preset'', ''tangerine'')]"
    by (simp add: cookie_text_ok_def)
  have name: "CHR ''='' \<notin> set ''theme-preset''" by simp
  have h: "header_of
       [(0, ''a'', ''1''), (1, ''theme-mode'', ''dark''), (0, ''theme-preset'', ''tangerine'')]
       = ''a=1; theme-mode=dark;theme-preset=tangerine''"
    by (simp add: header_of_def segment_def)
  have "getValueFromCookie
        (Some (header_of
           [(0, ''a'', ''1''), (1, ''theme-mode'', ''dark''), (0, ''theme-preset'', ''tangerine'')]))
        ''theme-preset''
       = first_named ''theme-preset''
           [(0, ''a'', ''1''), (1, ''theme-mode'', ''dark''), (0, ''theme-preset'', ''tangerine'')]"
    using getValueFromCookie_scan [OF ok name] by blast
  then show ?thesis using ok name h by simp
qed

text \<open>
  The claim as it was written fails for a space before a separator: the space is returned
  as part of the value.
\<close>

theorem getValueFromCookie_space_before_separator:
  "getValueFromCookie (Some ''theme-mode=dark ;theme-preset=tangerine'') ''theme-mode''
     = Some ''dark ''
   \<and> getValueFromCookie (Some ''theme-mode=dark ;theme-preset=tangerine'') ''theme-mode''
     \<noteq> Some ''dark''"
proof -
  have "getValueFromCookie (Some ''theme-mode=dark ;theme-preset=tangerine'') ''theme-mode''
     = Some ''dark ''"
    by code_simp
  then show ?thesis by simp
qed


section \<open>Saving and loading the preferences\<close>

subsection \<open>What \<^verbatim>\<open>document.cookie\<close> reads\<close>

lemma join_Cons_Cons: "join sep ((c # a) # xs) = c # join sep (a # xs)"
  by (cases xs) simp_all

lemma join_space:
  "join ''; '' (x # xs) = join '';'' (x # map (\<lambda>s. CHR '' '' # s) xs)"
proof (induction xs arbitrary: x)
  case Nil
  show ?case by simp
next
  case (Cons y ys)
  have "join ''; '' (x # y # ys) = x @ ''; '' @ join ''; '' (y # ys)" by simp
  also have "\<dots> = x @ '';'' @ CHR '' '' # join '';'' (y # map (\<lambda>s. CHR '' '' # s) ys)"
    by (simp only: Cons.IH) simp
  also have "\<dots> = x @ '';'' @ join '';'' ((CHR '' '' # y) # map (\<lambda>s. CHR '' '' # s) ys)"
    by (simp only: join_Cons_Cons)
  also have "\<dots> = join '';'' (x # map (\<lambda>s. CHR '' '' # s) (y # ys))" by simp
  finally show ?case .
qed

lemma spaced_segments:
  "map (\<lambda>s. CHR '' '' # s) (map (\<lambda>(n, v). n @ ''='' @ v) kvs)
     = map segment (map (\<lambda>(n, v). (1, n, v)) kvs)"
  by (induction kvs) (auto simp: segment_def)

lemma join_header_of:
  "join ''; '' (map (\<lambda>(n, v). n @ ''='' @ v) kvs) = header_of (spaced kvs)"
proof (cases kvs)
  case Nil
  then show ?thesis by (simp add: header_of_def)
next
  case (Cons c kvs')
  obtain n v where c: "c = (n, v)" by (cases c) auto
  have "join ''; '' ((n @ ''='' @ v) # map (\<lambda>(n, v). n @ ''='' @ v) kvs')
        = join '';'' (segment (0, n, v) # map segment (map (\<lambda>(n, v). (1, n, v)) kvs'))"
    by (simp only: join_space spaced_segments) (simp add: segment_def del: join.simps)
  then show ?thesis
    unfolding header_of_def Cons c by simp
qed

lemma cookie_header_of: "cookie d = header_of (spaced (cookie_pairs d))"
  by (simp add: cookie_def cookie_pairs_def join_header_of [symmetric] comp_def)

lemma spaced_ok:
  "list_all (\<lambda>(n, v). cookie_text_ok (0, n, v)) kvs \<Longrightarrow> list_all cookie_text_ok (spaced kvs)"
  by (cases kvs) (auto simp: list_all_iff cookie_text_ok_def)

lemma first_named_spaced: "first_named name (spaced kvs) = map_of kvs name"
proof (cases kvs)
  case Nil
  then show ?thesis by simp
next
  case (Cons c kvs')
  have "first_named name (map (\<lambda>(n, v). (1, n, v)) kvs') = map_of kvs' name"
    by (induction kvs') auto
  then show ?thesis using Cons by (cases c) auto
qed

lemma set_visible_cookies:
  "set (visible_cookies d) = {c \<in> set (cookie_jar d). script_visible d c}"
  by (simp add: visible_cookies_def)

lemma cookie_pairs_ok:
  "jar_ok (cookie_jar d) \<Longrightarrow> list_all (\<lambda>(n, v). cookie_text_ok (0, n, v)) (cookie_pairs d)"
  by (auto simp: jar_ok_def list_all_iff cookie_pairs_def set_visible_cookies)

lemma getValueFromCookie_pairs:
  assumes "jar_ok (cookie_jar d)" and "CHR ''='' \<notin> set name"
  shows "getValueFromCookie (Some (cookie d)) name = map_of (cookie_pairs d) name"
  using getValueFromCookie_header_of [OF spaced_ok [OF cookie_pairs_ok [OF assms(1)]] assms(2)]
  by (simp add: cookie_header_of first_named_spaced)

lemma map_of_only:
  assumes "(k, v) \<in> set kvs" and "\<And>v'. (k, v') \<in> set kvs \<Longrightarrow> v' = v"
  shows "map_of kvs k = Some v"
proof -
  have "map_of kvs k \<noteq> None"
    using assms(1) by (simp add: map_of_eq_None_iff image_iff) force
  then obtain v' where v': "map_of kvs k = Some v'" by blast
  then have "(k, v') \<in> set kvs" by (rule map_of_SomeD)
  then show ?thesis using assms(2) v' by simp
qed

text \<open>
  The scan finds the value of a name when one cookie that the script sees has the name, and
  all that have it have the same value.
\<close>

lemma getValueFromCookie_only:
  assumes "jar_ok (cookie_jar d)" and "CHR ''='' \<notin> set name"
    and "c \<in> set (cookie_jar d)" and "script_visible d c" and "cookie_name c = name"
    and "\<And>x. x \<in> set (cookie_jar d) \<Longrightarrow> script_visible d x \<Longrightarrow> cookie_name x = name \<Longrightarrow> x = c"
  shows "getValueFromCookie (Some (cookie d)) name = Some (cookie_value c)"
proof -
  have "map_of (cookie_pairs d) name = Some (cookie_value c)"
  proof (rule map_of_only)
    show "(name, cookie_value c) \<in> set (cookie_pairs d)"
      using assms(3,4,5) by (force simp: cookie_pairs_def set_visible_cookies)
  next
    fix v'
    assume "(name, v') \<in> set (cookie_pairs d)"
    then obtain x where "x \<in> set (cookie_jar d)" "script_visible d x" "cookie_name x = name"
      "cookie_value x = v'"
      by (auto simp: cookie_pairs_def set_visible_cookies)
    then show "v' = cookie_value c" using assms(6) by blast
  qed
  then show ?thesis using assms(1,2) by (simp add: getValueFromCookie_pairs)
qed

subsection \<open>What an assignment to \<^verbatim>\<open>document.cookie\<close> stores\<close>

lemma same_cookie_key: "same_cookie a b = (cookie_key a = cookie_key b)"
  by (simp add: same_cookie_def cookie_key_def)

lemma set_store_cookie: "x \<in> set (store_cookie c jar) \<Longrightarrow> x = c \<or> x \<in> set jar"
  by (induction jar) (auto split: if_splits)

lemma store_cookie_same:
  "distinct (map cookie_key jar) \<Longrightarrow> x \<in> set (store_cookie c jar) \<Longrightarrow>
   cookie_key x = cookie_key c \<Longrightarrow> x = c \<or> (x \<in> set jar \<and> http_only x)"
proof (induction jar)
  case Nil
  then show ?case by simp
next
  case (Cons old jar)
  show ?case
  proof (cases "same_cookie old c")
    case True
    then have k: "cookie_key old = cookie_key c" by (simp add: same_cookie_key)
    have "y \<in> set jar \<Longrightarrow> cookie_key y \<noteq> cookie_key c" for y
      using Cons.prems(1) k by (auto simp: image_iff)
    then show ?thesis using Cons.prems True by (auto split: if_splits)
  next
    case False
    then have "cookie_key old \<noteq> cookie_key c" by (simp add: same_cookie_key)
    then show ?thesis using Cons False by auto
  qed
qed

lemma store_cookie_mem:
  "(\<And>x. x \<in> set jar \<Longrightarrow> cookie_key x = cookie_key c \<Longrightarrow> \<not> http_only x) \<Longrightarrow>
   c \<in> set (store_cookie c jar)"
  by (induction jar) (auto simp: same_cookie_key)

lemma store_cookie_other:
  "x \<in> set jar \<Longrightarrow> cookie_key x \<noteq> cookie_key c \<Longrightarrow> x \<in> set (store_cookie c jar)"
  by (induction jar) (auto simp: same_cookie_key)

lemma map_key_store_cookie:
  "map cookie_key (store_cookie c jar) =
     (if cookie_key c \<in> set (map cookie_key jar) then map cookie_key jar
      else map cookie_key jar @ [cookie_key c])"
  by (induction jar) (auto simp: same_cookie_key)

lemma jar_ok_store_cookie:
  assumes "jar_ok jar" and "cookie_text_ok (0, cookie_name c, cookie_value c)"
  shows "jar_ok (store_cookie c jar)"
proof -
  have "list_all (\<lambda>c. cookie_text_ok (0, cookie_name c, cookie_value c)) (store_cookie c jar)"
    using assms set_store_cookie [of _ c jar] by (auto simp: jar_ok_def list_all_iff)
  moreover have "distinct (map cookie_key (store_cookie c jar))"
    using assms(1) by (simp add: jar_ok_def map_key_store_cookie)
  ultimately show ?thesis by (simp add: jar_ok_def)
qed

lemma split_from_no_sep:
  "sep \<notin> set cur \<Longrightarrow> x \<in> set (split_from sep cur s) \<Longrightarrow> sep \<notin> set x"
proof (induction s arbitrary: cur)
  case Nil
  then show ?case by simp
next
  case (Cons c s)
  show ?case
  proof (cases "c = sep")
    case True
    then have "x = cur \<or> x \<in> set (split_from sep [] s)" using Cons.prems(2) by simp
    then show ?thesis using Cons.prems(1) Cons.IH [of "[]"] by auto
  next
    case False
    then have "x \<in> set (split_from sep (cur @ [c]) s)" using Cons.prems(2) by simp
    then show ?thesis using Cons.prems(1) False Cons.IH [of "cur @ [c]"] by auto
  qed
qed

lemma dropWhile_snoc_keeps: "\<not> P a \<Longrightarrow> \<exists>ys. dropWhile P (xs @ [a]) = ys @ [a]"
  by (induction xs) auto

lemma strip_wsp_subset: "set (strip_wsp s) \<subseteq> set s"
proof -
  have "set (dropWhile is_wsp (rev (dropWhile is_wsp s))) \<subseteq> set (rev (dropWhile is_wsp s))"
    by (meson set_dropWhileD subsetI)
  moreover have "set (dropWhile is_wsp s) \<subseteq> set s"
    by (meson set_dropWhileD subsetI)
  ultimately show ?thesis by (auto simp: strip_wsp_def)
qed

lemma strip_wsp_no_leading_space: "take 1 (strip_wsp s) \<noteq> '' ''"
proof (cases "dropWhile is_wsp s")
  case Nil
  then have "strip_wsp s = []" unfolding strip_wsp_def by (simp only: rev.simps dropWhile.simps)
  then show ?thesis by simp
next
  case (Cons a t)
  have na: "\<not> is_wsp a" using Cons hd_dropWhile [of is_wsp s] by auto
  obtain ys where "dropWhile is_wsp (rev t @ [a]) = ys @ [a]"
    using dropWhile_snoc_keeps [of is_wsp a "rev t"] na by blast
  then have "strip_wsp s = a # rev ys" by (simp add: strip_wsp_def Cons)
  then show ?thesis using na by (auto simp: is_wsp_def)
qed

text \<open>Every assignment keeps the jar as a browser keeps it.\<close>

lemma cookie_assign_jar_ok:
  assumes "jar_ok (cookie_jar d)"
  shows "jar_ok (cookie_jar (cookie_assign s d))"
proof (cases "split s (CHR '';'')")
  case Nil
  then show ?thesis using assms by (simp add: cookie_assign_def)
next
  case (Cons pair unparsed)
  define n where "n = strip_wsp (takeWhile (\<lambda>c. c \<noteq> CHR ''='') pair)"
  define v where "v = strip_wsp (tl (dropWhile (\<lambda>c. c \<noteq> CHR ''='') pair))"
  have "pair \<in> set (split_from (CHR '';'') [] s)"
    using Cons by (simp add: split_def)
  then have p: "CHR '';'' \<notin> set pair"
    using split_from_no_sep [of "CHR '';''" "[]" pair s] by simp
  have "set (takeWhile (\<lambda>c. c \<noteq> CHR ''='') pair) \<subseteq> set pair"
    by (meson set_takeWhileD subsetI)
  moreover have "CHR ''='' \<notin> set (takeWhile (\<lambda>c. c \<noteq> CHR ''='') pair)"
    using set_takeWhileD [of "CHR ''=''" "\<lambda>c. c \<noteq> CHR ''=''" pair] by blast
  ultimately have n: "CHR '';'' \<notin> set n" "CHR ''='' \<notin> set n"
    unfolding n_def using p strip_wsp_subset by blast+
  have "set (tl xs) \<subseteq> set xs" for xs :: string
    by (cases xs) auto
  moreover have "set (dropWhile (\<lambda>c. c \<noteq> CHR ''='') pair) \<subseteq> set pair"
    by (meson set_dropWhileD subsetI)
  ultimately have "set (tl (dropWhile (\<lambda>c. c \<noteq> CHR ''='') pair)) \<subseteq> set pair"
    by blast
  then have v: "CHR '';'' \<notin> set v"
    unfolding v_def using p strip_wsp_subset by blast
  have ok: "cookie_text_ok (0, n, v)"
    using n v strip_wsp_no_leading_space by (simp add: cookie_text_ok_def n_def)
  have "jar_ok (store_cookie c (cookie_jar d))" if "cookie_name c = n" "cookie_value c = v" for c
    using assms ok that by (intro jar_ok_store_cookie) simp_all
  then show ?thesis
    using assms Cons by (simp add: cookie_assign_def Let_def n_def v_def)
qed

subsection \<open>The cookie that \<^verbatim>\<open>setValueToCookie\<close> writes\<close>

lemma digit_mem: "digit n \<in> set ''0123456789''"
  unfolding digit_def by (rule nth_mem) simp

lemma ToString_digits: "set (ToString n) \<subseteq> set ''0123456789''"
proof (induction n rule: ToString.induct)
  case (1 n)
  show ?case
  proof (cases "n < 10")
    case True
    then show ?thesis using digit_mem [of n] by (subst ToString.simps) simp
  next
    case False
    then show ?thesis using digit_mem [of n] 1 by (subst ToString.simps) simp
  qed
qed

lemma padded_digits: "set (ToZeroPaddedDecimalString n k) \<subseteq> set ''0123456789''"
  using ToString_digits [of n] by (auto simp: ToZeroPaddedDecimalString_def Let_def)

lemma take_drop_subset: "set (take a (drop b xs)) \<subseteq> set xs"
  by (meson set_drop_subset set_take_subset subset_trans)

lemma toUTCString_no_semicolon: "CHR '';'' \<notin> set (toUTCString tv)"
proof -
  have d: "CHR '';'' \<notin> set (ToZeroPaddedDecimalString n k)" for n k
    using padded_digits [of n k] by auto
  have w: "CHR '';'' \<notin> set (take 3 (drop k ''SunMonTueWedThuFriSat''))" for k
    using take_drop_subset [of 3 k "''SunMonTueWedThuFriSat''"] by auto
  have m: "CHR '';'' \<notin> set (take 3 (drop k ''JanFebMarAprMayJunJulAugSepOctNovDec''))" for k
    using take_drop_subset [of 3 k "''JanFebMarAprMayJunJulAugSepOctNovDec''"] by auto
  show ?thesis
    by (simp add: toUTCString_def d w m)
qed

lemma split3:
  "sep \<notin> set a \<Longrightarrow> sep \<notin> set b \<Longrightarrow> sep \<notin> set c \<Longrightarrow>
   split (a @ sep # b @ sep # c) sep = [a, b, c]"
  by (simp add: split_def split_from_sep split_from_nosep)

lemma takeWhile_before:
  "x \<notin> set xs \<Longrightarrow> takeWhile (\<lambda>c. c \<noteq> x) (xs @ x # ys) = xs"
  by (induction xs) auto

lemma dropWhile_before:
  "x \<notin> set xs \<Longrightarrow> dropWhile (\<lambda>c. c \<noteq> x) (xs @ x # ys) = x # ys"
  by (induction xs) auto

lemma parse_attribute_expires:
  "fst (parse_attribute (''expires='' @ date)) = ''expires''"
  by (simp add: parse_attribute_def strip_wsp_def is_wsp_def to_lower_def)

lemma parse_attribute_path: "parse_attribute ''path=/'' = (''path'', ''/'')"
  by (simp add: parse_attribute_def strip_wsp_def is_wsp_def to_lower_def)

lemma attributes_written:
  assumes "fst e = ''expires''"
  shows "domain_attribute [e, (''path'', ''/'')] = []"
    and "path_attribute d [e, (''path'', ''/'')] = ''/''"
    and "''httponly'' \<notin> set (map fst [e, (''path'', ''/'')])"
    and "''secure'' \<notin> set (map fst [e, (''path'', ''/'')])"
  using assms
  by (cases e; simp add: domain_attribute_def path_attribute_def last_attribute_def)+

lemma cookie_assign_written:
  assumes "CHR '';'' \<notin> set n" "CHR ''='' \<notin> set n" "CHR '';'' \<notin> set v"
    and "strip_wsp n = n" "strip_wsp v = v" "n \<noteq> []" and "CHR '';'' \<notin> set date"
  shows "cookie_assign (n @ ''='' @ v @ '';expires='' @ date @ '';path=/'') d
           = d\<lparr>cookie_jar := store_cookie (written_cookie d n v) (cookie_jar d)\<rparr>"
proof -
  define e where "e = parse_attribute (''expires='' @ date)"
  have e: "fst e = ''expires''"
    unfolding e_def by (rule parse_attribute_expires)
  have "split ((n @ ''='' @ v) @ CHR '';'' # (''expires='' @ date) @ CHR '';'' # ''path=/'') (CHR '';'')
          = [n @ ''='' @ v, ''expires='' @ date, ''path=/'']"
    using assms by (intro split3) simp_all
  then have s: "split (n @ ''='' @ v @ '';expires='' @ date @ '';path=/'') (CHR '';'')
          = [n @ ''='' @ v, ''expires='' @ date, ''path=/'']"
    by simp
  have t: "takeWhile (\<lambda>c. c \<noteq> CHR ''='') (n @ ''='' @ v) = n"
    "dropWhile (\<lambda>c. c \<noteq> CHR ''='') (n @ ''='' @ v) = CHR ''='' # v"
    using assms(2) takeWhile_before [of "CHR ''=''" n v] dropWhile_before [of "CHR ''=''" n v]
    by simp_all
  have avs: "map parse_attribute [''expires='' @ date, ''path=/''] = [e, (''path'', ''/'')]"
    by (simp only: list.map e_def parse_attribute_path)
  show ?thesis
    unfolding cookie_assign_def s
    by (simp only: list.case t avs attributes_written [OF e] Let_def)
       (simp add: assms written_cookie_def)
qed

lemma document_setValueToCookie:
  "document (setValueToCookie name val days w) =
     cookie_assign
       (name @ ''='' @ val @ '';expires='' @ toUTCString (now w + days * 24 * 60 * 60 * 1000)
          @ '';path=/'')
       (document w)"
  by (simp add: setValueToCookie_def document_cookie_assign_def log_def Let_def)

lemma now_setValueToCookie [simp]: "now (setValueToCookie name val days w) = now w"
  by (simp add: setValueToCookie_def document_cookie_assign_def log_def Let_def)

lemma mode_text:
  assumes "is_ThemeMode m"
  shows "CHR '';'' \<notin> set m" "strip_wsp m = m" "m \<noteq> []"
  using assms by (auto simp: is_ThemeMode_def strip_wsp_def is_wsp_def)

lemma preset_text:
  assumes "is_ThemePreset m"
  shows "CHR '';'' \<notin> set m" "strip_wsp m = m" "m \<noteq> []"
  using assms by (auto simp: is_ThemePreset_def strip_wsp_def is_wsp_def)

lemma cookie_names:
  "strip_wsp ''theme-mode'' = ''theme-mode''" "strip_wsp ''theme-preset'' = ''theme-preset''"
  by (simp_all add: strip_wsp_def is_wsp_def)

lemma document_saveThemePreferences:
  assumes "valid_ThemePreferences p"
  shows "document (saveThemePreferences p w) = saved p (document w)"
proof -
  have m: "is_ThemeMode (mode p)" and q: "is_ThemePreset (preset p)"
    using assms by (simp_all add: valid_ThemePreferences_def)
  have 1: "document (setValueToCookie ''theme-mode'' (mode p) 365 w)
             = (document w)\<lparr>cookie_jar :=
                 store_cookie (written_cookie (document w) ''theme-mode'' (mode p))
                   (cookie_jar (document w))\<rparr>"
    unfolding document_setValueToCookie
    by (rule cookie_assign_written)
       (simp_all add: mode_text [OF m] cookie_names toUTCString_no_semicolon)
  have 2: "document (setValueToCookie ''theme-preset'' (preset p) 365 w')
             = (document w')\<lparr>cookie_jar :=
                 store_cookie (written_cookie (document w') ''theme-preset'' (preset p))
                   (cookie_jar (document w'))\<rparr>"
    for w'
    unfolding document_setValueToCookie
    by (rule cookie_assign_written)
       (simp_all add: preset_text [OF q] cookie_names toUTCString_no_semicolon)
  show ?thesis
    by (simp add: saveThemePreferences_def 1 2 saved_def written_cookie_def)
qed

subsection \<open>The round trip\<close>

lemma saved_fields [simp]:
  "documentElement (saved p d) = documentElement d"
  "location_protocol (saved p d) = location_protocol d"
  "location_hostname (saved p d) = location_hostname d"
  "location_pathname (saved p d) = location_pathname d"
  by (simp_all add: saved_def)

lemma script_visible_saved [simp]:
  "cookie_applies (saved p d) c = cookie_applies d c"
  "script_visible (saved p d) c = script_visible d c"
  by (simp_all add: script_visible_def cookie_applies_def)

lemma written_cookie_fields [simp]:
  "cookie_name (written_cookie d n v) = n"
  "cookie_value (written_cookie d n v) = v"
  "cookie_key (written_cookie d n v) = (n, location_hostname d, ''/'')"
  "\<not> http_only (written_cookie d n v)"
  by (simp_all add: written_cookie_def cookie_key_def)

lemma written_cookie_visible:
  "path_match (location_pathname d) ''/'' \<Longrightarrow> script_visible d (written_cookie d n v)"
  by (simp add: script_visible_def cookie_applies_def written_cookie_def)

lemma own_key:
  assumes "theme_cookies_own d" and "x \<in> set (cookie_jar d)" and "cookie_applies d x"
    and "cookie_name x = ''theme-mode'' \<or> cookie_name x = ''theme-preset''"
  shows "cookie_key x = (cookie_name x, location_hostname d, ''/'')" and "script_visible d x"
  using assms by (auto simp: theme_cookies_own_def list_all_iff cookie_key_def)

lemma key_applies:
  assumes "path_match (location_pathname d) ''/''"
    and "cookie_key x = (n, location_hostname d, ''/'')"
  shows "cookie_applies d x"
  using assms by (simp add: cookie_applies_def cookie_key_def domain_match_def)

lemma saved_ok:
  assumes "valid_ThemePreferences p" and "jar_ok (cookie_jar d)" and "theme_cookies_own d"
  shows "jar_ok (cookie_jar (saved p d))"
    and "theme_cookies_own (saved p d)"
    and "getValueFromCookie (Some (cookie (saved p d))) ''theme-mode'' = Some (mode p)"
    and "getValueFromCookie (Some (cookie (saved p d))) ''theme-preset'' = Some (preset p)"
proof -
  define cm where "cm = written_cookie d ''theme-mode'' (mode p)"
  define cp where "cp = written_cookie d ''theme-preset'' (preset p)"
  define j1 where "j1 = store_cookie cm (cookie_jar d)"
  define j2 where "j2 = store_cookie cp j1"
  have jar: "cookie_jar (saved p d) = j2"
    by (simp add: saved_def j2_def j1_def cm_def cp_def)
  have m: "is_ThemeMode (mode p)" and q: "is_ThemePreset (preset p)"
    using assms(1) by (simp_all add: valid_ThemePreferences_def)
  have root: "path_match (location_pathname d) ''/''"
    using assms(3) by (simp add: theme_cookies_own_def)
  have km: "cookie_key cm = (''theme-mode'', location_hostname d, ''/'')"
    and kp: "cookie_key cp = (''theme-preset'', location_hostname d, ''/'')"
    and nm: "cookie_name cm = ''theme-mode''" and np: "cookie_name cp = ''theme-preset''"
    by (simp_all add: cm_def cp_def)
  have vm: "script_visible d cm" and vp: "script_visible d cp"
    unfolding cm_def cp_def using root by (rule written_cookie_visible)+
  have d0: "distinct (map cookie_key (cookie_jar d))"
    using assms(2) by (simp add: jar_ok_def)
  have ok1: "jar_ok j1"
    unfolding j1_def using assms(2) mode_text(1) [OF m]
    by (intro jar_ok_store_cookie) (simp_all add: cm_def cookie_text_ok_def)
  have ok2: "jar_ok j2"
    unfolding j2_def using ok1 preset_text(1) [OF q]
    by (intro jar_ok_store_cookie) (simp_all add: cp_def cookie_text_ok_def)
  have d1: "distinct (map cookie_key j1)"
    using ok1 by (simp add: jar_ok_def)
  have old: "\<not> http_only x"
    if "x \<in> set (cookie_jar d)" "cookie_key x = (n, location_hostname d, ''/'')"
      "n = ''theme-mode'' \<or> n = ''theme-preset''" for x n
  proof -
    have "cookie_applies d x" using root that(2) by (rule key_applies)
    moreover have "cookie_name x = n" using that(2) by (simp add: cookie_key_def)
    ultimately have "script_visible d x"
      using own_key(2) [OF assms(3) that(1)] that(3) by blast
    then show ?thesis by (simp add: script_visible_def)
  qed
  have in1: "x = cm \<or> x \<in> set (cookie_jar d)" if "x \<in> set j1" for x
    using that set_store_cookie unfolding j1_def by blast
  have in2: "x = cp \<or> x = cm \<or> x \<in> set (cookie_jar d)" if "x \<in> set j2" for x
    using that set_store_cookie [of x cp j1] in1 unfolding j2_def by blast
  have cm1: "cm \<in> set j1"
    unfolding j1_def using old [of _ "''theme-mode''"] by (intro store_cookie_mem) (simp add: km)
  have cm2: "cm \<in> set j2"
    unfolding j2_def using cm1 by (intro store_cookie_other) (simp_all add: km kp)
  have cp2: "cp \<in> set j2"
    unfolding j2_def
  proof (rule store_cookie_mem)
    fix x
    assume x: "x \<in> set j1" "cookie_key x = cookie_key cp"
    then have "x \<noteq> cm" using km kp by auto
    then have "x \<in> set (cookie_jar d)" using in1 [OF x(1)] by simp
    then show "\<not> http_only x" using x(2) old [of x "''theme-preset''"] by (simp add: kp)
  qed
  have key: "cookie_key x = (cookie_name x, location_hostname d, ''/'')"
    if "x \<in> set j2" "script_visible d x"
      "cookie_name x = ''theme-mode'' \<or> cookie_name x = ''theme-preset''" for x
  proof -
    have "cookie_applies d x" using that(2) by (simp add: script_visible_def)
    then show ?thesis
      using in2 [OF that(1)] own_key(1) [OF assms(3) _ _ that(3)] km kp nm np by auto
  qed
  have only_m: "x = cm" if "x \<in> set j2" "script_visible d x" "cookie_name x = ''theme-mode''" for x
  proof -
    have k: "cookie_key x = cookie_key cm" using key [OF that(1,2)] that(3) km by simp
    have "x \<noteq> cp" using that(3) np by auto
    then have "x \<in> set j1" using that(1) set_store_cookie [of x cp j1] unfolding j2_def by blast
    then have "x = cm \<or> (x \<in> set (cookie_jar d) \<and> http_only x)"
      unfolding j1_def using d0 k by (intro store_cookie_same)
    then show ?thesis using that(2) by (auto simp: script_visible_def)
  qed
  have only_p: "x = cp" if "x \<in> set j2" "script_visible d x" "cookie_name x = ''theme-preset''" for x
  proof -
    have k: "cookie_key x = cookie_key cp" using key [OF that(1,2)] that(3) kp by simp
    have "x = cp \<or> (x \<in> set j1 \<and> http_only x)"
      using that(1) unfolding j2_def using d1 k by (intro store_cookie_same)
    then show ?thesis using that(2) by (auto simp: script_visible_def)
  qed
  show "jar_ok (cookie_jar (saved p d))"
    using ok2 by (simp add: jar)
  show "theme_cookies_own (saved p d)"
  proof -
    have "script_visible d x \<and> cookie_domain x = location_hostname d \<and> cookie_path x = ''/''"
      if "x \<in> set j2" "cookie_name x = ''theme-mode'' \<or> cookie_name x = ''theme-preset''"
        "cookie_applies d x" for x
    proof -
      note x = that
      consider "x = cp" | "x = cm" | "x \<in> set (cookie_jar d)" using in2 [OF x(1)] by blast
      then show ?thesis
      proof cases
        case 1
        then show ?thesis using vp by (simp add: cp_def written_cookie_def)
      next
        case 2
        then show ?thesis using vm by (simp add: cm_def written_cookie_def)
      next
        case 3
        then show ?thesis
          using assms(3) x(2,3) by (auto simp: theme_cookies_own_def list_all_iff)
      qed
    qed
    then show ?thesis
      using root by (auto simp: theme_cookies_own_def list_all_iff jar)
  qed
  have "getValueFromCookie (Some (cookie (saved p d))) ''theme-mode'' = Some (cookie_value cm)"
  proof (rule getValueFromCookie_only)
    show "jar_ok (cookie_jar (saved p d))" using ok2 by (simp add: jar)
    show "CHR ''='' \<notin> set ''theme-mode''" by simp
    show "cm \<in> set (cookie_jar (saved p d))" using cm2 by (simp add: jar)
    show "script_visible (saved p d) cm" using vm by simp
    show "cookie_name cm = ''theme-mode''" by (rule nm)
  next
    fix x
    assume "x \<in> set (cookie_jar (saved p d))" "script_visible (saved p d) x"
      "cookie_name x = ''theme-mode''"
    then have "x \<in> set j2" "script_visible d x" "cookie_name x = ''theme-mode''"
      by (simp_all add: jar)
    then show "x = cm" by (rule only_m)
  qed
  then show "getValueFromCookie (Some (cookie (saved p d))) ''theme-mode'' = Some (mode p)"
    by (simp add: cm_def)
  have "getValueFromCookie (Some (cookie (saved p d))) ''theme-preset'' = Some (cookie_value cp)"
  proof (rule getValueFromCookie_only)
    show "jar_ok (cookie_jar (saved p d))" using ok2 by (simp add: jar)
    show "CHR ''='' \<notin> set ''theme-preset''" by simp
    show "cp \<in> set (cookie_jar (saved p d))" using cp2 by (simp add: jar)
    show "script_visible (saved p d) cp" using vp by simp
    show "cookie_name cp = ''theme-preset''" by (rule np)
  next
    fix x
    assume "x \<in> set (cookie_jar (saved p d))" "script_visible (saved p d) x"
      "cookie_name x = ''theme-preset''"
    then have "x \<in> set j2" "script_visible d x" "cookie_name x = ''theme-preset''"
      by (simp_all add: jar)
    then show "x = cp" by (rule only_p)
  qed
  then show "getValueFromCookie (Some (cookie (saved p d))) ''theme-preset'' = Some (preset p)"
    by (simp add: cp_def)
qed

lemma loadThemePreferences_saved:
  assumes "valid_ThemePreferences p" and "jar_ok (cookie_jar d)"
    and "theme_cookies_own d" and "document w' = saved p d"
  shows "loadThemePreferences w' = p"
proof -
  have "mode p \<noteq> []" "preset p \<noteq> []"
    using assms(1) mode_text(3) preset_text(3) by (simp_all add: valid_ThemePreferences_def)
  then show ?thesis
    using saved_ok(3,4) [OF assms(1,2,3)]
    by (simp add: loadThemePreferences_def assms(4) or_else_def)
qed





section \<open>The store\<close>

subsection \<open>What each operation leaves alone\<close>

lemma log_fields [simp]:
  "preferencesStore (log e w) = preferencesStore w"
  "document (log e w) = document w"
  "provider (log e w) = provider w"
  "client_code (log e w) = client_code w"
  "now (log e w) = now w"
  "trace (log e w) = trace w @ [e]"
  by (simp_all add: log_def)

lemma updateTheme_fields [simp]:
  "preferencesStore (updateTheme p w) = preferencesStore w"
  "provider (updateTheme p w) = provider w"
  "client_code (updateTheme p w) = client_code w"
  "now (updateTheme p w) = now w"
  "cookie_jar (document (updateTheme p w)) = cookie_jar (document w)"
  by (simp_all add: updateTheme_def updateThemePreset_def updateThemeMode_def
      html_setAttribute_def html_classList_add_def html_classList_remove_def)

lemma setValueToCookie_fields [simp]:
  "preferencesStore (setValueToCookie n v days w) = preferencesStore w"
  "provider (setValueToCookie n v days w) = provider w"
  "client_code (setValueToCookie n v days w) = client_code w"
  "documentElement (document (setValueToCookie n v days w)) = documentElement (document w)"
  by (simp_all add: setValueToCookie_def document_cookie_assign_def cookie_assign_def Let_def
      split: list.splits)

lemma saveThemePreferences_fields [simp]:
  "preferencesStore (saveThemePreferences p w) = preferencesStore w"
  "provider (saveThemePreferences p w) = provider w"
  "client_code (saveThemePreferences p w) = client_code w"
  "now (saveThemePreferences p w) = now w"
  "documentElement (document (saveThemePreferences p w)) = documentElement (document w)"
  by (simp_all add: saveThemePreferences_def)

lemma setPreferences_fields [simp]:
  "preferencesStore (setPreferences p w) = preferencesStore w"
  "document (setPreferences p w) = document w"
  "client_code (setPreferences p w) = client_code w"
  "now (setPreferences p w) = now w"
  "mounted (provider (setPreferences p w)) = mounted (provider w)"
  "isHydrated (provider (setPreferences p w)) = isHydrated (provider w)"
  "subscriptions (provider (setPreferences p w)) = subscriptions (provider w)"
  "cleanup (provider (setPreferences p w)) = cleanup (provider w)"
  "preferences (provider (setPreferences p w)) = (if mounted (provider w) then p else preferences (provider w))"
  "trace (setPreferences p w) = trace w @ [SetPreferences p]"
  by (simp_all add: setPreferences_def)

lemma setIsHydrated_fields [simp]:
  "preferencesStore (setIsHydrated b w) = preferencesStore w"
  "document (setIsHydrated b w) = document w"
  "client_code (setIsHydrated b w) = client_code w"
  "now (setIsHydrated b w) = now w"
  "mounted (provider (setIsHydrated b w)) = mounted (provider w)"
  "preferences (provider (setIsHydrated b w)) = preferences (provider w)"
  "subscriptions (provider (setIsHydrated b w)) = subscriptions (provider w)"
  "cleanup (provider (setIsHydrated b w)) = cleanup (provider w)"
  "isHydrated (provider (setIsHydrated b w)) = (if mounted (provider w) then b else isHydrated (provider w))"
  "trace (setIsHydrated b w) = trace w @ [SetIsHydrated b]"
  by (simp_all add: setIsHydrated_def)

lemma subscribe_fields [simp]:
  "state (preferencesStore (subscribe l w)) = state (preferencesStore w)"
  "listeners (preferencesStore (subscribe l w)) = listeners (preferencesStore w) @ [l]"
  "document (subscribe l w) = document w"
  "provider (subscribe l w) = provider w"
  "client_code (subscribe l w) = client_code w"
  "now (subscribe l w) = now w"
  "trace (subscribe l w) = trace w"
  by (simp_all add: subscribe_def)

lemma unsubscribe_fields [simp]:
  "state (preferencesStore (unsubscribe l w)) = state (preferencesStore w)"
  "document (unsubscribe l w) = document w"
  "provider (unsubscribe l w) = provider w"
  "client_code (unsubscribe l w) = client_code w"
  "now (unsubscribe l w) = now w"
  "trace (unsubscribe l w) = trace w @ [UnsubscribeCall l]"
  by (simp_all add: unsubscribe_def Let_def)

lemma provider_subscription_fields [simp]:
  "preferencesStore (provider_subscription w) = preferencesStore w"
  "client_code (provider_subscription w) = client_code w"
  "now (provider_subscription w) = now w"
  "mounted (provider (provider_subscription w)) = mounted (provider w)"
  "isHydrated (provider (provider_subscription w)) = isHydrated (provider w)"
  "subscriptions (provider (provider_subscription w)) = subscriptions (provider w)"
  "cleanup (provider (provider_subscription w)) = cleanup (provider w)"
  by (simp_all add: provider_subscription_def Let_def)

lemma run_action_fields [simp]:
  "state (preferencesStore (run_action a w)) = state (preferencesStore w)"
  "document (run_action a w) = document w"
  "provider (run_action a w) = provider w"
  "client_code (run_action a w) = client_code w"
  "now (run_action a w) = now w"
  by (cases a; simp)+

lemma fold_run_action_fields [simp]:
  "state (preferencesStore (fold run_action as w)) = state (preferencesStore w)"
  "document (fold run_action as w) = document w"
  "provider (fold run_action as w) = provider w"
  "client_code (fold run_action as w) = client_code w"
  "now (fold run_action as w) = now w"
  by (induction as arbitrary: w; simp)+

lemma call_fields [simp]:
  "state (preferencesStore (call l w)) = state (preferencesStore w)"
  "client_code (call l w) = client_code w"
  "now (call l w) = now w"
  "mounted (provider (call l w)) = mounted (provider w)"
  "isHydrated (provider (call l w)) = isHydrated (provider w)"
  "subscriptions (provider (call l w)) = subscriptions (provider w)"
  "cleanup (provider (call l w)) = cleanup (provider w)"
  by (cases l; simp add: call_def Let_def)+

lemma forEach_invariant:
  assumes "\<And>l w. P w \<Longrightarrow> l \<in> set (listeners (preferencesStore w)) \<Longrightarrow> P (call l w)" and "P w"
  shows "P (forEach k len w)"
  using assms(2)
proof (induction k len w rule: forEach.induct)
  case (1 k len w)
  show ?case
  proof (cases "k < len")
    case False
    then show ?thesis using "1.prems" by (subst forEach.simps) simp
  next
    case True
    show ?thesis
    proof (cases "k < length (listeners (preferencesStore w))")
      case True
      have "P (forEach (Suc k) len (call (listeners (preferencesStore w) ! k) w))"
        using \<open>k < len\<close> True "1.prems" assms(1) by (intro "1.IH"(1)) simp_all
      then show ?thesis using \<open>k < len\<close> True by (subst forEach.simps) simp
    next
      case False
      have "P (forEach (Suc k) len w)"
        using \<open>k < len\<close> False "1.prems" by (intro "1.IH"(2)) simp_all
      then show ?thesis using \<open>k < len\<close> False by (subst forEach.simps) simp
    qed
  qed
qed

lemma forEach_fields [simp]:
  "state (preferencesStore (forEach k len w)) = state (preferencesStore w)"
  "client_code (forEach k len w) = client_code w"
  "now (forEach k len w) = now w"
  "mounted (provider (forEach k len w)) = mounted (provider w)"
  "isHydrated (provider (forEach k len w)) = isHydrated (provider w)"
  "subscriptions (provider (forEach k len w)) = subscriptions (provider w)"
  "cleanup (provider (forEach k len w)) = cleanup (provider w)"
proof -
  show "state (preferencesStore (forEach k len w)) = state (preferencesStore w)"
    by (rule forEach_invariant [where P = "\<lambda>v. state (preferencesStore v) = state (preferencesStore w)"]) simp_all
  show "client_code (forEach k len w) = client_code w"
    by (rule forEach_invariant [where P = "\<lambda>v. client_code v = client_code w"]) simp_all
  show "now (forEach k len w) = now w"
    by (rule forEach_invariant [where P = "\<lambda>v. now v = now w"]) simp_all
  show "mounted (provider (forEach k len w)) = mounted (provider w)"
    by (rule forEach_invariant [where P = "\<lambda>v. mounted (provider v) = mounted (provider w)"]) simp_all
  show "isHydrated (provider (forEach k len w)) = isHydrated (provider w)"
    by (rule forEach_invariant [where P = "\<lambda>v. isHydrated (provider v) = isHydrated (provider w)"]) simp_all
  show "subscriptions (provider (forEach k len w)) = subscriptions (provider w)"
    by (rule forEach_invariant [where P = "\<lambda>v. subscriptions (provider v) = subscriptions (provider w)"]) simp_all
  show "cleanup (provider (forEach k len w)) = cleanup (provider w)"
    by (rule forEach_invariant [where P = "\<lambda>v. cleanup (provider v) = cleanup (provider w)"]) simp_all
qed

lemma setState_fields [simp]:
  "state (preferencesStore (setState ns w)) = spread (state (preferencesStore w)) ns"
  "client_code (setState ns w) = client_code w"
  "now (setState ns w) = now w"
  "mounted (provider (setState ns w)) = mounted (provider w)"
  "isHydrated (provider (setState ns w)) = isHydrated (provider w)"
  "subscriptions (provider (setState ns w)) = subscriptions (provider w)"
  "cleanup (provider (setState ns w)) = cleanup (provider w)"
  by (simp_all add: setState_def Let_def)

subsection \<open>The state after a sequence of calls\<close>

lemma getState_perform:
  "getState (perform c w) =
     \<lparr>mode = last_mode (mode (getState w)) [c], preset = last_preset (preset (getState w)) [c]\<rparr>"
  by (cases c) (simp_all add: getState_def setThemeMode_def setThemePreset_def spread_def)

lemma last_mode_Cons: "last_mode m (c # cs) = last_mode (last_mode m [c]) cs"
  by (cases c) simp_all

lemma last_preset_Cons: "last_preset p (c # cs) = last_preset (last_preset p [c]) cs"
  by (cases c) simp_all

text \<open>
  Claim C1. After any sequence of calls of the store, \<^verbatim>\<open>getState()\<close> has the last mode
  passed (the initial mode if none was) and the last preset passed (the initial preset if
  none was): \<^verbatim>\<open>setState\<close> merges, a field that the partial state does not have is kept, and
  setting one field leaves the other as it was.
\<close>

theorem getState_after_calls:
  "getState (fold perform cs w) =
     \<lparr>mode = last_mode (mode (getState w)) cs, preset = last_preset (preset (getState w)) cs\<rparr>
   \<and> getState (setThemeMode m w) = (getState w)\<lparr>mode := m\<rparr>
   \<and> getState (setThemePreset q w) = (getState w)\<lparr>preset := q\<rparr>
   \<and> getState (setState newState w) = spread (getState w) newState"
proof -
  have a: "getState (fold perform cs w) =
     \<lparr>mode = last_mode (mode (getState w)) cs, preset = last_preset (preset (getState w)) cs\<rparr>"
  proof (induction cs arbitrary: w)
    case Nil
    show ?case by simp
  next
    case (Cons c cs)
    have "getState (fold perform (c # cs) w) = getState (fold perform cs (perform c w))"
      by simp
    also have "\<dots> = \<lparr>mode = last_mode (mode (getState (perform c w))) cs,
                       preset = last_preset (preset (getState (perform c w))) cs\<rparr>"
      by (rule Cons.IH)
    also have "\<dots> = \<lparr>mode = last_mode (mode (getState w)) (c # cs),
                       preset = last_preset (preset (getState w)) (c # cs)\<rparr>"
      by (simp add: getState_perform last_mode_Cons [of _ c cs] last_preset_Cons [of _ c cs])
    finally show ?case .
  qed
  have b: "getState (setThemeMode m w) = (getState w)\<lparr>mode := m\<rparr>"
    by (simp add: getState_def setThemeMode_def spread_def)
  have c: "getState (setThemePreset q w) = (getState w)\<lparr>preset := q\<rparr>"
    by (simp add: getState_def setThemePreset_def spread_def)
  have d: "getState (setState newState w) = spread (getState w) newState"
    by (simp add: getState_def)
  from a b c d show ?thesis by blast
qed

subsection \<open>Unsubscribing\<close>

lemma array_indexOf_ge: "- 1 \<le> array_indexOf xs x"
  by (induction xs) (auto simp: Let_def)

lemma array_indexOf_mem: "(array_indexOf xs x > - 1) = (x \<in> set xs)"
  using array_indexOf_ge [of _ x] by (induction xs) (auto simp: Let_def)

lemma splice1_array_indexOf:
  "x \<in> set xs \<Longrightarrow> splice1 xs (nat (array_indexOf xs x)) = remove1 x xs"
proof (induction xs)
  case Nil
  then show ?case by simp
next
  case (Cons y ys)
  show ?case
  proof (cases "y = x")
    case True
    then show ?thesis by (simp add: splice1_def)
  next
    case False
    then have m: "x \<in> set ys" using Cons.prems by simp
    then have pos: "array_indexOf ys x > - 1" by (simp add: array_indexOf_mem)
    then have "nat (array_indexOf ys x + 1) = Suc (nat (array_indexOf ys x))" by simp
    then show ?thesis
      using False pos Cons.IH [OF m] by (simp add: splice1_def Let_def)
  qed
qed

lemma listeners_unsubscribe [simp]:
  "listeners (preferencesStore (unsubscribe l w)) = remove1 l (listeners (preferencesStore w))"
proof (cases "l \<in> set (listeners (preferencesStore w))")
  case True
  then show ?thesis
    by (simp add: unsubscribe_def Let_def array_indexOf_mem splice1_array_indexOf)
next
  case False
  then show ?thesis
    by (simp add: unsubscribe_def Let_def array_indexOf_mem remove1_idem)
qed

lemma quiet_after_snoc:
  "quiet_after f (tr @ [e]) = (quiet_after f tr \<and> (e = Invoke f \<longrightarrow> UnsubscribeCall f \<notin> set tr))"
  by (induction tr) auto

lemma quiet_after_append_neutral:
  "Invoke f \<notin> set evs \<Longrightarrow> quiet_after f (tr @ evs) = quiet_after f tr"
  by (induction evs arbitrary: tr rule: rev_induct)
     (auto simp: quiet_after_snoc append_assoc [symmetric] simp del: append_assoc)

lemma count_list_remove1_other: "x \<noteq> y \<Longrightarrow> count_list (remove1 x xs) y = count_list xs y"
  by (induction xs) auto

lemma count_list_remove1_same: "count_list (remove1 x xs) x = count_list xs x - 1"
  by (induction xs) auto

lemma set_remove1_other: "x \<noteq> y \<Longrightarrow> (y \<in> set (remove1 x xs)) = (y \<in> set xs)"
  by (induction xs) auto

lemma out_after_remove1: "count_list xs x \<le> 1 \<Longrightarrow> x \<notin> set (remove1 x xs)"
  using count_list_remove1_same [of x xs] by (simp add: count_list_0_iff [symmetric])

text \<open>Each operation keeps the invariant.\<close>

lemma stays_out_neutral:
  assumes "unsubscribed_stays_out f n w"
    and "listeners (preferencesStore w') = listeners (preferencesStore w)"
    and "trace w' = trace w @ evs"
    and "Invoke f \<notin> set evs" and "UnsubscribeCall f \<notin> set evs"
  shows "unsubscribed_stays_out f n w'"
  using assms by (auto simp: unsubscribed_stays_out_def quiet_after_append_neutral)

lemma stays_out_subscribe:
  assumes "unsubscribed_stays_out f n w" and "g \<noteq> f"
  shows "unsubscribed_stays_out f n (subscribe g w)"
  using assms by (auto simp: unsubscribed_stays_out_def)

lemma stays_out_unsubscribe:
  assumes "unsubscribed_stays_out f n w"
  shows "unsubscribed_stays_out f n (unsubscribe g w)"
proof (cases "g = f")
  case True
  then show ?thesis
    using assms out_after_remove1 [of "listeners (preferencesStore w)" f]
    by (auto simp: unsubscribed_stays_out_def quiet_after_snoc count_list_remove1_same)
next
  case False
  then show ?thesis
    using assms
    by (auto simp: unsubscribed_stays_out_def quiet_after_snoc count_list_remove1_other
        set_remove1_other)
qed

lemma stays_out_invoke:
  assumes "unsubscribed_stays_out f n w" and "l \<in> set (listeners (preferencesStore w))"
  shows "unsubscribed_stays_out f n (log (Invoke l) w)"
  using assms by (auto simp: unsubscribed_stays_out_def quiet_after_snoc)

lemma trace_updateTheme [simp]:
  "trace (updateTheme p w) = trace w @ updateTheme_events p"
  by (simp add: updateTheme_def updateThemePreset_def updateThemeMode_def
      html_setAttribute_def html_classList_add_def html_classList_remove_def
      updateTheme_events_def)

lemma trace_saveThemePreferences [simp]:
  "trace (saveThemePreferences p w) = trace w @ saveThemePreferences_events w p"
  by (simp add: saveThemePreferences_def setValueToCookie_def document_cookie_assign_def
      Let_def saveThemePreferences_events_def cookie_text_def)

lemma trace_provider_subscription:
  "trace (provider_subscription w) =
     trace w @ SetPreferences (getState w) # updateTheme_events (getState w)
       @ saveThemePreferences_events w (getState w)"
  by (simp add: provider_subscription_def Let_def saveThemePreferences_events_def
      cookie_text_def)

lemma stays_out_provider_subscription:
  assumes "unsubscribed_stays_out f n w"
  shows "unsubscribed_stays_out f n (provider_subscription w)"
  using assms
  by (rule stays_out_neutral
       [where evs = "SetPreferences (getState w) # updateTheme_events (getState w)
          @ saveThemePreferences_events w (getState w)"])
     (auto simp: trace_provider_subscription updateTheme_events_def
        saveThemePreferences_events_def split: if_splits)

lemma stays_out_run_action:
  assumes "unsubscribed_stays_out f n w" and "\<forall>m. f = ClientCallback m \<longrightarrow> a \<noteq> CallSubscribe m"
  shows "unsubscribed_stays_out f n (run_action a w)"
  using assms by (cases a) (auto intro: stays_out_subscribe stays_out_unsubscribe)

lemma stays_out_actions:
  assumes "unsubscribed_stays_out f n w"
    and "\<forall>m. f = ClientCallback m \<longrightarrow> CallSubscribe m \<notin> set as"
  shows "unsubscribed_stays_out f n (fold run_action as w)"
  using assms
proof (induction as arbitrary: w)
  case Nil
  then show ?case by simp
next
  case (Cons a as)
  have "unsubscribed_stays_out f n (run_action a w)"
    using Cons.prems by (intro stays_out_run_action) auto
  then have "unsubscribed_stays_out f n (fold run_action as (run_action a w))"
    using Cons.prems by (intro Cons.IH) auto
  then show ?case by simp
qed

lemma stays_out_call:
  assumes "unsubscribed_stays_out f n w" and "never_subscribes (client_code w) f"
    and "l \<in> set (listeners (preferencesStore w))"
  shows "unsubscribed_stays_out f n (call l w)"
proof -
  have i: "unsubscribed_stays_out f n (log (Invoke l) w)"
    using assms(1,3) by (rule stays_out_invoke)
  show ?thesis
  proof (cases l)
    case (ProviderSubscription k)
    then show ?thesis
      using stays_out_provider_subscription [OF i] by (simp add: call_def)
  next
    case (ClientCallback k)
    have "\<forall>m. f = ClientCallback m \<longrightarrow> CallSubscribe m \<notin> set (client_code w k)"
      using assms(2) by (auto simp: never_subscribes_def)
    then have "unsubscribed_stays_out f n (fold run_action (client_code w k) (log (Invoke l) w))"
      using i by (intro stays_out_actions)
    then show ?thesis using ClientCallback by (simp add: call_def)
  qed
qed

lemma stays_out_forEach:
  assumes "unsubscribed_stays_out f n w" and "never_subscribes (client_code w) f"
  shows "unsubscribed_stays_out f n (forEach k len w)"
proof -
  have "unsubscribed_stays_out f n (forEach k len w)
        \<and> never_subscribes (client_code (forEach k len w)) f"
    by (rule forEach_invariant
        [where P = "\<lambda>v. unsubscribed_stays_out f n v \<and> never_subscribes (client_code v) f"])
       (simp_all add: assms stays_out_call)
  then show ?thesis by simp
qed

lemma stays_out_setState:
  assumes "unsubscribed_stays_out f n w" and "never_subscribes (client_code w) f"
  shows "unsubscribed_stays_out f n (setState ns w)"
proof -
  define w1 where "w1 = log (StoreAssign (spread (state (preferencesStore w)) ns))
      (w\<lparr>preferencesStore := (preferencesStore w)\<lparr>state := spread (state (preferencesStore w)) ns\<rparr>\<rparr>)"
  have "unsubscribed_stays_out f n w1"
    using assms(1)
    by (rule stays_out_neutral [where evs = "[StoreAssign (spread (state (preferencesStore w)) ns)]"])
       (simp_all add: w1_def log_def)
  moreover have "never_subscribes (client_code w1) f"
    using assms(2) by (simp add: w1_def)
  ultimately have "unsubscribed_stays_out f n (forEach 0 (length (listeners (preferencesStore w1))) w1)"
    by (rule stays_out_forEach)
  then show ?thesis by (simp add: setState_def Let_def w1_def)
qed

lemma client_code_perform [simp]: "client_code (perform c w) = client_code w"
  by (cases c) (simp_all add: setThemeMode_def setThemePreset_def)

lemma stays_out_perform:
  assumes "unsubscribed_stays_out f n w" and "never_subscribes (client_code w) f"
    and "c \<noteq> Subscribe f"
  shows "unsubscribed_stays_out f n (perform c w)"
  using assms
  by (cases c)
     (auto simp: setThemeMode_def setThemePreset_def
       intro: stays_out_setState stays_out_subscribe stays_out_unsubscribe)

lemma stays_out_calls:
  assumes "unsubscribed_stays_out f n w" and "never_subscribes (client_code w) f"
    and "Subscribe f \<notin> set cs"
  shows "unsubscribed_stays_out f n (fold perform cs w)"
  using assms
proof (induction cs arbitrary: w)
  case Nil
  then show ?case by simp
next
  case (Cons c cs)
  have "unsubscribed_stays_out f n (perform c w)"
    using Cons.prems by (intro stays_out_perform) auto
  then have "unsubscribed_stays_out f n (fold perform cs (perform c w))"
    using Cons.prems by (intro Cons.IH) auto
  then show ?case by simp
qed

lemma stays_out_start:
  assumes "f \<notin> set (listeners (preferencesStore w))"
  shows "unsubscribed_stays_out f (length (trace w)) (subscribe f w)"
  using assms by (simp add: unsubscribed_stays_out_def)

lemma remove1_removeAll: "count_list xs x \<le> 1 \<Longrightarrow> remove1 x xs = removeAll x xs"
  by (induction xs) (auto simp: count_list_0_iff)

text \<open>
  Claim C2, amended. For a listener that is not in the array when it is subscribed, and that
  nothing subscribes again (no later call, no client closure), after any sequence of
  calls of the store: no invocation of the listener follows a call of its unsubscribe
  function, be the call made between two \<^verbatim>\<open>setState\<close> or from inside the callback of
  another listener during a notification; the unsubscribe function removes the listener
  and keeps every other listener, in order; and a second call of it changes nothing but
  the record of calls.
\<close>

theorem unsubscribed_listener_not_notified:
  "f \<notin> set (listeners (preferencesStore w)) \<Longrightarrow> Subscribe f \<notin> set cs \<Longrightarrow>
   never_subscribes (client_code w) f \<Longrightarrow>
     quiet_after f (drop (length (trace w)) (trace (fold perform cs (subscribe f w))))
     \<and> listeners (preferencesStore (unsubscribe f (fold perform cs (subscribe f w))))
         = removeAll f (listeners (preferencesStore (fold perform cs (subscribe f w))))
     \<and> unsubscribe f (unsubscribe f (fold perform cs (subscribe f w)))
         = log (UnsubscribeCall f) (unsubscribe f (fold perform cs (subscribe f w)))"
proof -
  assume fresh: "f \<notin> set (listeners (preferencesStore w))"
    and calls: "Subscribe f \<notin> set cs"
    and code: "never_subscribes (client_code w) f"
  define w1 where "w1 = fold perform cs (subscribe f w)"
  have "unsubscribed_stays_out f (length (trace w)) (subscribe f w)"
    using fresh by (rule stays_out_start)
  moreover have "never_subscribes (client_code (subscribe f w)) f"
    using code by simp
  ultimately have inv: "unsubscribed_stays_out f (length (trace w)) w1"
    unfolding w1_def using calls by (rule stays_out_calls)
  then have a: "quiet_after f (drop (length (trace w)) (trace w1))"
    and once: "count_list (listeners (preferencesStore w1)) f \<le> 1"
    by (simp_all add: unsubscribed_stays_out_def)
  have b: "listeners (preferencesStore (unsubscribe f w1))
             = removeAll f (listeners (preferencesStore w1))"
    using once by (simp add: remove1_removeAll)
  have "f \<notin> set (listeners (preferencesStore (unsubscribe f w1)))"
    using once by (simp add: out_after_remove1)
  then have c: "unsubscribe f (unsubscribe f w1) = log (UnsubscribeCall f) (unsubscribe f w1)"
    by (subst unsubscribe_def) (simp add: Let_def array_indexOf_mem)
  from a b c show ?thesis unfolding w1_def by blast
qed

theorem unsubscribed_listener_not_notified_witness:
  "ClientCallback 1 \<notin> set (listeners (preferencesStore
      (subscribe (ClientCallback 0) (new_page (\<lambda>n. if n = 0 then [CallUnsubscribe 1] else [])))))
   \<and> Subscribe (ClientCallback 1) \<notin> set [SetThemeMode ''dark'', SetThemePreset ''soft-pop'']
   \<and> never_subscribes
        (client_code
          (subscribe (ClientCallback 0) (new_page (\<lambda>n. if n = 0 then [CallUnsubscribe 1] else []))))
        (ClientCallback 1)
   \<and> quiet_after (ClientCallback 1)
        (drop (length (trace
            (subscribe (ClientCallback 0) (new_page (\<lambda>n. if n = 0 then [CallUnsubscribe 1] else [])))))
          (trace (fold perform [SetThemeMode ''dark'', SetThemePreset ''soft-pop'']
             (subscribe (ClientCallback 1)
               (subscribe (ClientCallback 0)
                 (new_page (\<lambda>n. if n = 0 then [CallUnsubscribe 1] else [])))))))
   \<and> trace (fold perform [SetThemeMode ''dark'', SetThemePreset ''soft-pop'']
             (subscribe (ClientCallback 1)
               (subscribe (ClientCallback 0)
                 (new_page (\<lambda>n. if n = 0 then [CallUnsubscribe 1] else [])))))
       = [StoreAssign \<lparr>mode = ''dark'', preset = ''default''\<rparr>,
          Invoke (ClientCallback 0), UnsubscribeCall (ClientCallback 1),
          StoreAssign \<lparr>mode = ''dark'', preset = ''soft-pop''\<rparr>,
          Invoke (ClientCallback 0), UnsubscribeCall (ClientCallback 1)]"
proof -
  define w where
    "w = subscribe (ClientCallback 0) (new_page (\<lambda>n. if n = 0 then [CallUnsubscribe 1] else []))"
  have h1: "ClientCallback 1 \<notin> set (listeners (preferencesStore w))"
    by (simp add: w_def new_page_def new_PreferencesStore_def)
  have h2: "Subscribe (ClientCallback 1) \<notin> set [SetThemeMode ''dark'', SetThemePreset ''soft-pop'']"
    by simp
  have h3: "never_subscribes (client_code w) (ClientCallback 1)"
    by (simp add: w_def new_page_def never_subscribes_def)
  have t: "trace (fold perform [SetThemeMode ''dark'', SetThemePreset ''soft-pop'']
             (subscribe (ClientCallback 1) w))
       = [StoreAssign \<lparr>mode = ''dark'', preset = ''default''\<rparr>,
          Invoke (ClientCallback 0), UnsubscribeCall (ClientCallback 1),
          StoreAssign \<lparr>mode = ''dark'', preset = ''soft-pop''\<rparr>,
          Invoke (ClientCallback 0), UnsubscribeCall (ClientCallback 1)]"
    unfolding w_def by code_simp
  from h1 h2 h3 t unsubscribed_listener_not_notified [OF h1 h2 h3] show ?thesis
    unfolding w_def by blast
qed

text \<open>
  The claim as it was written fails for a function that is subscribed twice: after one call
  of an unsubscribe function the function is still notified, and a second call of the same
  unsubscribe function removes the other registration.
\<close>

theorem unsubscribe_of_listener_subscribed_twice:
  "listeners (preferencesStore
     (unsubscribe (ClientCallback 0)
        (subscribe (ClientCallback 0) (subscribe (ClientCallback 0) blank_page))))
     = [ClientCallback 0]
   \<and> Invoke (ClientCallback 0) \<in> set (trace
       (setState \<lparr>mode_opt = Some ''dark'', preset_opt = None\<rparr>
         (unsubscribe (ClientCallback 0)
            (subscribe (ClientCallback 0) (subscribe (ClientCallback 0) blank_page)))))
   \<and> listeners (preferencesStore
     (unsubscribe (ClientCallback 0)
       (unsubscribe (ClientCallback 0)
          (subscribe (ClientCallback 0) (subscribe (ClientCallback 0) blank_page)))))
     = []"
  by code_simp

subsection \<open>Notification when no listener calls the store\<close>

lemma saveThemePreferences_events_cong:
  "now w' = now w \<Longrightarrow>
   saveThemePreferences_events w' p = saveThemePreferences_events w p"
  by (simp add: saveThemePreferences_events_def cookie_text_def)

lemma notification_cong:
  "now w' = now w \<Longrightarrow> notification w' p l = notification w p l"
  by (cases l) (simp_all add: notification_def saveThemePreferences_events_cong [of w' w])

lemma saveThemePreferences_events_log [simp]:
  "saveThemePreferences_events (log e w) p = saveThemePreferences_events w p"
  by (rule saveThemePreferences_events_cong) simp_all

lemma call_inert:
  assumes "calls_nothing (client_code w) l"
  shows "listeners (preferencesStore (call l w)) = listeners (preferencesStore w)"
    and "trace (call l w) = trace w @ notification w (getState w) l"
proof -
  show "listeners (preferencesStore (call l w)) = listeners (preferencesStore w)"
    using assms by (cases l) (simp_all add: call_def calls_nothing_def)
  show "trace (call l w) = trace w @ notification w (getState w) l"
    using assms
    by (cases l) (simp_all add: call_def notification_def trace_provider_subscription getState_def
        calls_nothing_def)
qed

lemma inert_call:
  assumes "inert w" and "l \<in> set (listeners (preferencesStore w))"
  shows "inert (call l w)"
proof -
  have "calls_nothing (client_code w) l"
    using assms by (auto simp: inert_def list_all_iff)
  then have "listeners (preferencesStore (call l w)) = listeners (preferencesStore w)"
    by (rule call_inert)
  then show ?thesis using assms(1) by (simp add: inert_def)
qed

lemma fold_call_inert:
  assumes "list_all (calls_nothing (client_code w)) ls"
  shows "listeners (preferencesStore (fold call ls w)) = listeners (preferencesStore w)
         \<and> trace (fold call ls w) = trace w @ concat (map (notification w (getState w)) ls)"
  using assms
proof (induction ls arbitrary: w)
  case Nil
  show ?case by simp
next
  case (Cons l ls)
  have l: "calls_nothing (client_code w) l"
    using Cons.prems by simp
  have rest: "list_all (calls_nothing (client_code (call l w))) ls"
    using Cons.prems by simp
  have same: "notification (call l w) (getState (call l w)) = notification w (getState w)"
    by (rule ext) (simp add: notification_cong [of "call l w" w] getState_def)
  show ?case
    using Cons.IH [OF rest] call_inert [OF l]
    by (simp add: same)
qed

lemma forEach_inert:
  assumes "inert w" and "len = length (listeners (preferencesStore w))"
  shows "forEach k len w = fold call (drop k (listeners (preferencesStore w))) w"
  using assms
proof (induction k len w rule: forEach.induct)
  case (1 k len w)
  show ?case
  proof (cases "k < len")
    case False
    then show ?thesis using "1.prems" by (subst forEach.simps) simp
  next
    case True
    define l where "l = listeners (preferencesStore w) ! k"
    have k: "k < length (listeners (preferencesStore w))" using True "1.prems" by simp
    then have mem: "l \<in> set (listeners (preferencesStore w))" by (simp add: l_def)
    have cl: "calls_nothing (client_code w) l"
      using mem "1.prems"(1) by (auto simp: inert_def list_all_iff)
    have ls: "listeners (preferencesStore (call l w)) = listeners (preferencesStore w)"
      using cl by (rule call_inert)
    have "forEach (Suc k) len (call l w)
            = fold call (drop (Suc k) (listeners (preferencesStore (call l w)))) (call l w)"
      unfolding l_def using True k "1.prems" inert_call [OF "1.prems"(1) mem] ls
      by (intro "1.IH"(1)) (simp_all add: l_def)
    then have "forEach (Suc k) len (call l w)
            = fold call (drop (Suc k) (listeners (preferencesStore w))) (call l w)"
      by (simp only: ls)
    moreover have "drop k (listeners (preferencesStore w))
                     = l # drop (Suc k) (listeners (preferencesStore w))"
      unfolding l_def using k by (simp add: Cons_nth_drop_Suc)
    ultimately show ?thesis
      using True k by (subst forEach.simps) (simp add: l_def)
  qed
qed

lemma setState_inert:
  assumes "inert w"
  shows "trace (setState ns w) =
           trace w @ StoreAssign (spread (getState w) ns)
             # concat (map (notification w (spread (getState w) ns)) (listeners (preferencesStore w)))"
    and "listeners (preferencesStore (setState ns w)) = listeners (preferencesStore w)"
proof -
  define w1 where "w1 = log (StoreAssign (spread (state (preferencesStore w)) ns))
      (w\<lparr>preferencesStore := (preferencesStore w)\<lparr>state := spread (state (preferencesStore w)) ns\<rparr>\<rparr>)"
  have ls: "listeners (preferencesStore w1) = listeners (preferencesStore w)"
    by (simp add: w1_def)
  have p: "inert w1" using assms by (simp add: inert_def w1_def)
  have f: "forEach 0 (length (listeners (preferencesStore w1))) w1
             = fold call (listeners (preferencesStore w)) w1"
    using forEach_inert [OF p refl, of 0] by (simp add: ls)
  have all: "list_all (calls_nothing (client_code w1)) (listeners (preferencesStore w))"
    using p by (simp add: inert_def ls)
  have w1: "now w1 = now w"
    "getState w1 = spread (getState w) ns" "trace w1 = trace w @ [StoreAssign (spread (getState w) ns)]"
    by (simp_all add: w1_def getState_def)
  have n: "notification w1 (spread (getState w) ns) = notification w (spread (getState w) ns)"
    by (rule ext, rule notification_cong) (simp_all only: w1)
  have s: "setState ns w = fold call (listeners (preferencesStore w)) w1"
    using f by (simp add: setState_def Let_def w1_def)
  show "trace (setState ns w) =
           trace w @ StoreAssign (spread (getState w) ns)
             # concat (map (notification w (spread (getState w) ns)) (listeners (preferencesStore w)))"
    using fold_call_inert [OF all] by (simp only: s w1 n) simp
  show "listeners (preferencesStore (setState ns w)) = listeners (preferencesStore w)"
    using fold_call_inert [OF all] by (simp only: s ls)
qed

subsection \<open>The order of store, root element and cookie\<close>

lemma trace_run_action: "\<exists>ext. trace (run_action a w) = trace w @ ext"
  by (cases a) simp_all

lemma trace_actions: "\<exists>ext. trace (fold run_action as w) = trace w @ ext"
proof (induction as arbitrary: w)
  case Nil
  show ?case by simp
next
  case (Cons a as)
  obtain e1 where e1: "trace (run_action a w) = trace w @ e1"
    using trace_run_action by blast
  obtain e2 where "trace (fold run_action as (run_action a w)) = trace (run_action a w) @ e2"
    using Cons.IH by blast
  then have "trace (fold run_action (a # as) w) = trace w @ (e1 @ e2)"
    by (simp add: e1)
  then show ?case by blast
qed

lemma trace_call: "\<exists>ext. trace (call l w) = trace w @ ext"
proof (cases l)
  case (ProviderSubscription n)
  then show ?thesis by (simp add: call_def trace_provider_subscription)
next
  case (ClientCallback n)
  obtain e where "trace (fold run_action (client_code w n) (log (Invoke l) w))
                    = trace (log (Invoke l) w) @ e"
    using trace_actions by blast
  then have "trace (call l w) = trace w @ (Invoke l # e)"
    using ClientCallback by (simp add: call_def)
  then show ?thesis by blast
qed

lemma trace_forEach: "\<exists>ext. trace (forEach k len w) = trace w @ ext"
proof (rule forEach_invariant [where P = "\<lambda>v. \<exists>ext. trace v = trace w @ ext"])
  fix l and v :: world
  assume "\<exists>ext. trace v = trace w @ ext"
  then obtain e1 where e1: "trace v = trace w @ e1" by blast
  obtain e2 where "trace (call l v) = trace v @ e2" using trace_call by blast
  then have "trace (call l v) = trace w @ (e1 @ e2)" by (simp add: e1)
  then show "\<exists>ext. trace (call l v) = trace w @ ext" by blast
next
  show "\<exists>ext. trace w = trace w @ ext" by simp
qed

lemma trace_setState:
  "\<exists>rest. trace (setState ns w) = trace w @ StoreAssign (spread (getState w) ns) # rest"
proof -
  define w1 where "w1 = log (StoreAssign (spread (state (preferencesStore w)) ns))
      (w\<lparr>preferencesStore := (preferencesStore w)\<lparr>state := spread (state (preferencesStore w)) ns\<rparr>\<rparr>)"
  obtain e where "trace (forEach 0 (length (listeners (preferencesStore w1))) w1) = trace w1 @ e"
    using trace_forEach by blast
  then have "trace (setState ns w) = trace w @ StoreAssign (spread (getState w) ns) # e"
    by (simp add: setState_def Let_def w1_def getState_def log_def)
  then show ?thesis by blast
qed

lemma trace_run_action_calls:
  "\<exists>es. trace (run_action a w) = trace w @ es \<and> list_all is_UnsubscribeCall es"
  by (cases a) simp_all

lemma trace_actions_calls:
  "\<exists>es. trace (fold run_action as w) = trace w @ es \<and> list_all is_UnsubscribeCall es"
proof (induction as arbitrary: w)
  case Nil
  show ?case by simp
next
  case (Cons a as)
  obtain e1 where e1: "trace (run_action a w) = trace w @ e1" "list_all is_UnsubscribeCall e1"
    using trace_run_action_calls by blast
  obtain e2 where e2: "trace (fold run_action as (run_action a w)) = trace (run_action a w) @ e2"
    "list_all is_UnsubscribeCall e2"
    using Cons.IH by blast
  have "trace (fold run_action (a # as) w) = trace w @ (e1 @ e2)
        \<and> list_all is_UnsubscribeCall (e1 @ e2)"
    using e1 e2 by simp
  then show ?case by blast
qed

lemma trace_call_ok:
  "\<exists>c. trace (call l w) = trace w @ c \<and> invocation_ok w (getState w) c"
proof (cases l)
  case (ProviderSubscription n)
  have "trace (call l w) = trace w @ Invoke l # SetPreferences (getState w)
          # updateTheme_events (getState w) @ saveThemePreferences_events w (getState w)"
    using ProviderSubscription by (simp add: call_def trace_provider_subscription getState_def)
  moreover have "invocation_ok w (getState w) (Invoke l # SetPreferences (getState w)
          # updateTheme_events (getState w) @ saveThemePreferences_events w (getState w))"
    using ProviderSubscription by simp
  ultimately show ?thesis by blast
next
  case (ClientCallback n)
  obtain es where es: "trace (fold run_action (client_code w n) (log (Invoke l) w))
                    = trace (log (Invoke l) w) @ es" "list_all is_UnsubscribeCall es"
    using trace_actions_calls by blast
  have "trace (call l w) = trace w @ Invoke l # es"
    using ClientCallback es(1) by (simp add: call_def)
  moreover have "invocation_ok w (getState w) (Invoke l # es)"
    using ClientCallback es(2) by simp
  ultimately show ?thesis by blast
qed

lemma invocation_ok_cong:
  "now w' = now w \<Longrightarrow>
   invocation_ok w' p c = invocation_ok w p c"
  using saveThemePreferences_events_cong [of w' w p]
  by (induction w p c rule: invocation_ok.induct) simp_all

lemma trace_forEach_ok:
  "\<exists>cs. trace (forEach k len w) = trace w @ concat cs
        \<and> list_all (invocation_ok w (getState w)) cs"
proof -
  define P where "P = (\<lambda>v :: world. state (preferencesStore v) = state (preferencesStore w)
      \<and> now v = now w
      \<and> (\<exists>cs. trace v = trace w @ concat cs \<and> list_all (invocation_ok w (getState w)) cs))"
  have "P (forEach k len w)"
  proof (rule forEach_invariant [where P = P])
    fix l and v :: world
    assume "P v"
    then obtain cs where v: "state (preferencesStore v) = state (preferencesStore w)"
      "now v = now w"
      "trace v = trace w @ concat cs" "list_all (invocation_ok w (getState w)) cs"
      unfolding P_def by blast
    obtain c where c: "trace (call l v) = trace v @ c" "invocation_ok v (getState v) c"
      using trace_call_ok by blast
    have "invocation_ok w (getState w) c"
      using c(2) v(1) invocation_ok_cong [OF v(2)] by (simp add: getState_def)
    then have "trace (call l v) = trace w @ concat (cs @ [c])
        \<and> list_all (invocation_ok w (getState w)) (cs @ [c])"
      using c(1) v(3,4) by simp
    then show "P (call l v)"
      unfolding P_def using v(1,2) by (simp only: call_fields) blast
  next
    have "trace w = trace w @ concat [] \<and> list_all (invocation_ok w (getState w)) []"
      by simp
    then show "P w" unfolding P_def by blast
  qed
  then show ?thesis unfolding P_def by blast
qed

lemma trace_setState_ok:
  "\<exists>cs. trace (setState ns w) = trace w @ StoreAssign (spread (getState w) ns) # concat cs
        \<and> list_all (invocation_ok w (spread (getState w) ns)) cs"
proof -
  define w1 where "w1 = log (StoreAssign (spread (state (preferencesStore w)) ns))
      (w\<lparr>preferencesStore := (preferencesStore w)\<lparr>state := spread (state (preferencesStore w)) ns\<rparr>\<rparr>)"
  have w1: "now w1 = now w"
    "getState w1 = spread (getState w) ns" "trace w1 = trace w @ [StoreAssign (spread (getState w) ns)]"
    by (simp_all add: w1_def getState_def)
  obtain cs where cs: "trace (forEach 0 (length (listeners (preferencesStore w1))) w1)
      = trace w1 @ concat cs" "list_all (invocation_ok w1 (getState w1)) cs"
    using trace_forEach_ok by blast
  have "invocation_ok w1 (getState w1) = invocation_ok w (spread (getState w) ns)"
    unfolding w1(2) by (rule ext, rule invocation_ok_cong) (simp_all only: w1)
  then have ok: "list_all (invocation_ok w (spread (getState w) ns)) cs"
    using cs(2) by simp
  have "setState ns w = forEach 0 (length (listeners (preferencesStore w1))) w1"
    by (simp add: setState_def Let_def w1_def)
  then have "trace (setState ns w) = trace w @ StoreAssign (spread (getState w) ns) # concat cs"
    using cs(1) by (simp only: w1) simp
  then show ?thesis using ok by blast
qed

text \<open>
  Claim C10. \<^verbatim>\<open>setState\<close> compares nothing: it runs the notification also when the merged
  state is the state before (\<open>setState_inert\<close> gives its events, whatever the state).
  The notification does not reach every listener, though. Here two listeners are
  subscribed and the first one calls its own unsubscribe function in its callback;
  \<^verbatim>\<open>setThemeMode("light")\<close> on the default state invokes the first listener and passes over
  the second, which is in the array before and after.
\<close>

theorem setState_passes_over_a_listener:
  "listeners (preferencesStore
     (subscribe (ClientCallback 1) (subscribe (ClientCallback 0)
        (new_page unsubscribes_itself))))
     = [ClientCallback 0, ClientCallback 1]
   \<and> getState
       (subscribe (ClientCallback 1) (subscribe (ClientCallback 0)
          (new_page unsubscribes_itself)))
     = \<lparr>mode = ''light'', preset = ''default''\<rparr>
   \<and> trace (setThemeMode ''light''
       (subscribe (ClientCallback 1) (subscribe (ClientCallback 0)
          (new_page unsubscribes_itself))))
     = [StoreAssign \<lparr>mode = ''light'', preset = ''default''\<rparr>,
        Invoke (ClientCallback 0), UnsubscribeCall (ClientCallback 0)]
   \<and> listeners (preferencesStore (setThemeMode ''light''
       (subscribe (ClientCallback 1) (subscribe (ClientCallback 0)
          (new_page unsubscribes_itself)))))
     = [ClientCallback 1]"
  by code_simp


section \<open>The provider\<close>

lemma effect_cleanup_fields [simp]:
  "state (preferencesStore (effect_cleanup w)) = state (preferencesStore w)"
  "mounted (provider (effect_cleanup w)) = mounted (provider w)"
  "isHydrated (provider (effect_cleanup w)) = isHydrated (provider w)"
  "preferences (provider (effect_cleanup w)) = preferences (provider w)"
  "client_code (effect_cleanup w) = client_code w"
  by (simp_all add: effect_cleanup_def Let_def split: option.splits)

lemma setTheme_fields [simp]:
  "state (preferencesStore (setTheme p w)) = p"
  "mounted (provider (setTheme p w)) = mounted (provider w)"
  "isHydrated (provider (setTheme p w)) = isHydrated (provider w)"
  "subscriptions (provider (setTheme p w)) = subscriptions (provider w)"
  "client_code (setTheme p w) = client_code w"
  "now (setTheme p w) = now w"
  by (simp_all add: setTheme_def spread_def)

lemma effect_fields [simp]:
  "state (preferencesStore (effect prop w)) = initialPreferences_of prop"
  "mounted (provider (effect prop w)) = mounted (provider w)"
  "isHydrated (provider (effect prop w)) = (mounted (provider w) \<or> isHydrated (provider w))"
  "client_code (effect prop w) = client_code w"
  "mounted (provider w) \<Longrightarrow> preferences (provider (effect prop w)) = initialPreferences_of prop"
  by (simp_all add: effect_def Let_def)

lemma first_render_fields [simp]:
  "mounted (provider (first_render prop w)) = True"
  "isHydrated (provider (first_render prop w)) = False"
  "preferences (provider (first_render prop w)) = initialPreferences_of prop"
  "preferencesStore (first_render prop w) = preferencesStore w"
  "document (first_render prop w) = document w"
  "trace (first_render prop w) = trace w"
  "client_code (first_render prop w) = client_code w"
  by (simp_all add: first_render_def)

lemma documentElement_effect:
  "documentElement (document (effect prop w)) =
     documentElement (document (updateTheme (initialPreferences_of prop)
        (setPreferences (initialPreferences_of prop) (setTheme (initialPreferences_of prop) w))))"
  by (simp add: effect_def Let_def)

lemma trace_effect:
  "\<exists>mid. trace (effect prop w) =
     trace w @ StoreAssign (initialPreferences_of prop) # mid
       @ SetPreferences (initialPreferences_of prop) # updateTheme_events (initialPreferences_of prop)
       @ [SetIsHydrated True]"
proof -
  have "spread (getState w) \<lparr>mode_opt = Some (mode (initialPreferences_of prop)),
          preset_opt = Some (preset (initialPreferences_of prop))\<rparr> = initialPreferences_of prop"
    by (simp add: spread_def)
  then obtain mid where "trace (setTheme (initialPreferences_of prop) w)
      = trace w @ StoreAssign (initialPreferences_of prop) # mid"
    using trace_setState [of "\<lparr>mode_opt = Some (mode (initialPreferences_of prop)),
          preset_opt = Some (preset (initialPreferences_of prop))\<rparr>" w]
    by (auto simp: setTheme_def)
  then have "trace (effect prop w) =
     trace w @ StoreAssign (initialPreferences_of prop) # mid
       @ SetPreferences (initialPreferences_of prop) # updateTheme_events (initialPreferences_of prop)
       @ [SetIsHydrated True]"
    by (simp add: effect_def Let_def)
  then show ?thesis by blast
qed

lemma phase_session_step:
  assumes "phase_of w = Ready"
  shows "phase_of (session_step s w) = Ready"
proof -
  have r: "mounted (provider w)" "isHydrated (provider w)"
    using assms by (auto simp: phase_of_def split: if_splits)
  then have "mounted (provider (session_step s w)) \<and> isHydrated (provider (session_step s w))"
    by (cases s)
       (simp_all add: PreferencesProvider_def toggleTheme_def Let_def provider_setThemeMode_def
          provider_setThemePreset_def setThemeMode_def setThemePreset_def)
  then show ?thesis by (simp add: phase_of_def)
qed

lemma phase_session:
  assumes "phase_of w = Ready"
  shows "phase_of (fold session_step steps w) = Ready"
  using assms
proof (induction steps arbitrary: w)
  case Nil
  then show ?case by simp
next
  case (Cons s steps)
  have "phase_of (session_step s w) = Ready" using Cons.prems by (rule phase_session_step)
  then have "phase_of (fold session_step steps (session_step s w)) = Ready" by (rule Cons.IH)
  then show ?case by simp
qed

text \<open>
  Claim C9. The first render puts the provider in the hydrating state, in which it returns
  its children hidden. The effect that follows sets the store to the preferences passed in
  \<^verbatim>\<open>initialPreferences\<close> (the defaults only when the prop is absent), applies them to the root
  element and only then sets \<^verbatim>\<open>isHydrated\<close>; after it the provider is ready and renders its
  children in the context. Once ready, the provider stays ready, and never renders hidden
  again, whatever follows on the page while it is mounted.
\<close>

theorem hydration_state_machine:
  "phase_of (new_page code) = Uninitialized
   \<and> phase_of (first_render prop w) = Hydrating
   \<and> PreferencesProvider (first_render prop w) = Hidden
   \<and> phase_of (effect prop (first_render prop w)) = Ready
   \<and> getState (effect prop (first_render prop w)) = initialPreferences_of prop
   \<and> initialPreferences_of (Some p) = p
   \<and> (''dark'' \<in> set (classList (documentElement (document (effect prop (first_render prop w))))))
       = (mode (initialPreferences_of prop) = ''dark'')
   \<and> getAttribute ''data-theme-preset''
         (documentElement (document (effect prop (first_render prop w))))
       = Some (preset (initialPreferences_of prop))
   \<and> (\<exists>mid. trace (effect prop (first_render prop w)) =
         trace w @ StoreAssign (initialPreferences_of prop) # mid
           @ SetPreferences (initialPreferences_of prop)
           # updateTheme_events (initialPreferences_of prop) @ [SetIsHydrated True])
   \<and> PreferencesProvider (effect prop (first_render prop w))
       = Provided \<lparr>ctx_preferences = initialPreferences_of prop\<rparr>
   \<and> (phase_of w = Ready \<longrightarrow>
        phase_of (fold session_step steps w) = Ready
        \<and> PreferencesProvider (fold session_step steps w) \<noteq> Hidden)"
proof -
  define ip where "ip = initialPreferences_of prop"
  define w2 where "w2 = effect prop (first_render prop w)"
  have a: "phase_of (new_page code) = Uninitialized"
    by (simp add: phase_of_def new_page_def)
  have b: "phase_of (first_render prop w) = Hydrating"
    by (simp add: phase_of_def)
  have c: "PreferencesProvider (first_render prop w) = Hidden"
    by (simp add: PreferencesProvider_def)
  have d: "phase_of w2 = Ready"
    by (simp add: phase_of_def w2_def)
  have e: "getState w2 = ip"
    by (simp add: getState_def w2_def ip_def)
  have f: "initialPreferences_of (Some p) = p"
    by (simp add: initialPreferences_of_def)
  have root: "documentElement (document w2) =
      setAttribute ''data-theme-preset'' (preset ip)
        ((if mode ip = ''dark'' then classList_add ''dark'' else classList_remove ''dark'')
           (documentElement (document
              (setPreferences ip (setTheme ip (first_render prop w))))))"
    unfolding w2_def ip_def by (simp only: documentElement_effect documentElement_updateTheme)
  have g: "(''dark'' \<in> set (classList (documentElement (document w2)))) = (mode ip = ''dark'')"
    by (simp add: root classList_setAttribute classList_add_def classList_remove_def)
  have h: "getAttribute ''data-theme-preset'' (documentElement (document w2)) = Some (preset ip)"
    by (simp add: root getAttribute_def setAttribute_def map_of_put)
  have i: "\<exists>mid. trace w2 = trace w @ StoreAssign ip # mid
           @ SetPreferences ip # updateTheme_events ip @ [SetIsHydrated True]"
    unfolding w2_def ip_def using trace_effect [of "prop" "first_render prop w"] by simp
  have j: "PreferencesProvider w2 = Provided \<lparr>ctx_preferences = ip\<rparr>"
    by (simp add: PreferencesProvider_def w2_def ip_def)
  have k: "phase_of w = Ready \<longrightarrow>
        phase_of (fold session_step steps w) = Ready
        \<and> PreferencesProvider (fold session_step steps w) \<noteq> Hidden"
  proof
    assume "phase_of w = Ready"
    then have "phase_of (fold session_step steps w) = Ready" by (rule phase_session)
    then show "phase_of (fold session_step steps w) = Ready
        \<and> PreferencesProvider (fold session_step steps w) \<noteq> Hidden"
      by (auto simp: phase_of_def PreferencesProvider_def split: if_splits)
  qed
  from a b c d e f g h i j k show ?thesis
    unfolding w2_def ip_def by blast
qed

theorem hydration_state_machine_witness:
  "phase_of (hydrated_page (Some \<lparr>mode = ''dark'', preset = ''brutalist''\<rparr>)) = Ready
   \<and> phase_of (fold session_step
        [CallToggleTheme, EffectAgain None, StoreSubscribe 3,
         StoreSetState \<lparr>mode_opt = None, preset_opt = Some ''tangerine''\<rparr>, StoreUnsubscribe 3]
        (hydrated_page (Some \<lparr>mode = ''dark'', preset = ''brutalist''\<rparr>))) = Ready
   \<and> PreferencesProvider (fold session_step
        [CallToggleTheme, EffectAgain None, StoreSubscribe 3,
         StoreSetState \<lparr>mode_opt = None, preset_opt = Some ''tangerine''\<rparr>, StoreUnsubscribe 3]
        (hydrated_page (Some \<lparr>mode = ''dark'', preset = ''brutalist''\<rparr>))) \<noteq> Hidden"
proof -
  have r: "phase_of (hydrated_page (Some \<lparr>mode = ''dark'', preset = ''brutalist''\<rparr>)) = Ready"
    by (simp add: hydrated_page_def phase_of_def)
  from r hydration_state_machine
    [of _ _ "hydrated_page (Some \<lparr>mode = ''dark'', preset = ''brutalist''\<rparr>)" _
        "[CallToggleTheme, EffectAgain None, StoreSubscribe 3,
          StoreSetState \<lparr>mode_opt = None, preset_opt = Some ''tangerine''\<rparr>, StoreUnsubscribe 3]"]
  show ?thesis by blast
qed

text \<open>
  Claim C7. The hook \<^verbatim>\<open>usePreferences\<close> of preferences-provider, the one that consumes
  the preferences context, throws whenever no context value reaches it: with no provider
  above it, and also below a provider that is not hydrated yet, which renders its children
  outside the context. It returns a value, the context value of the render, only below a
  provider that is hydrated. In no case does it return preferences that no provider gave.
\<close>

theorem usePreferences_without_provider:
  "usePreferences None = Inl ''usePreferences must be used within a PreferencesProvider''
   \<and> (\<not> isHydrated (provider w) \<longrightarrow>
        usePreferences (Some (PreferencesProvider w))
          = Inl ''usePreferences must be used within a PreferencesProvider'')
   \<and> (isHydrated (provider w) \<longrightarrow>
        usePreferences (Some (PreferencesProvider w))
          = Inr \<lparr>ctx_preferences = preferences (provider w)\<rparr>)
   \<and> (\<forall>v. usePreferences ancestor = Inr v \<longrightarrow> ancestor = Some (Provided v))"
  by (auto simp: usePreferences_def useContext_def PreferencesProvider_def
      split: option.splits rendered.splits)

theorem usePreferences_without_provider_witness:
  "\<not> isHydrated (provider (first_render None blank_page))
   \<and> usePreferences (Some (PreferencesProvider (first_render None blank_page)))
       = Inl ''usePreferences must be used within a PreferencesProvider''
   \<and> isHydrated (provider (hydrated_page None))
   \<and> usePreferences (Some (PreferencesProvider (hydrated_page None)))
       = Inr \<lparr>ctx_preferences = \<lparr>mode = ''light'', preset = ''default''\<rparr>\<rparr>"
proof -
  have a: "\<not> isHydrated (provider (first_render None blank_page))" by simp
  have b: "isHydrated (provider (hydrated_page None))" by (simp add: hydrated_page_def)
  have c: "preferences (provider (hydrated_page None)) = \<lparr>mode = ''light'', preset = ''default''\<rparr>"
    by (simp add: hydrated_page_def initialPreferences_of_def DEFAULT_THEME_PREFERENCES_def)
  from a b c usePreferences_without_provider [of "first_render None blank_page"]
    usePreferences_without_provider [of "hydrated_page None"]
  show ?thesis by simp
qed

subsection \<open>Toggling the mode\<close>

lemma call_ProviderSubscription_preferences:
  "mounted (provider w) \<Longrightarrow>
   preferences (provider (call (ProviderSubscription n) w)) = state (preferencesStore w)"
  by (simp add: call_def provider_subscription_def Let_def getState_def)

lemma call_nothing_provider:
  "calls_nothing (client_code w) (ClientCallback n) \<Longrightarrow>
   provider (call (ClientCallback n) w) = provider w"
  by (simp add: call_def calls_nothing_def)

lemma preferences_fold_call_inert:
  assumes "list_all (calls_nothing (client_code w)) ls" and "mounted (provider w)"
  shows "preferences (provider (fold call ls w)) =
           (if list_ex is_ProviderSubscription ls then state (preferencesStore w)
            else preferences (provider w))"
  using assms
proof (induction ls arbitrary: w rule: rev_induct)
  case Nil
  show ?case by simp
next
  case (snoc l ls)
  have all: "list_all (calls_nothing (client_code w)) ls"
    and l: "calls_nothing (client_code w) l"
    using snoc.prems(1) by simp_all
  define v where "v = fold call ls w"
  have IH: "preferences (provider v) =
           (if list_ex is_ProviderSubscription ls then state (preferencesStore w)
            else preferences (provider w))"
    unfolding v_def using all snoc.prems(2) by (rule snoc.IH)
  have m: "mounted (provider v)"
    unfolding v_def using snoc.prems(2)
    by (induction ls arbitrary: w) simp_all
  have st: "state (preferencesStore v) = state (preferencesStore w)"
    unfolding v_def by (induction ls arbitrary: w) simp_all
  have cc: "client_code v = client_code w"
    unfolding v_def by (induction ls arbitrary: w) simp_all
  show ?case
  proof (cases l)
    case (ProviderSubscription n)
    then show ?thesis
      using call_ProviderSubscription_preferences [OF m, of n] st
      by (simp add: v_def [symmetric])
  next
    case (ClientCallback n)
    have "calls_nothing (client_code v) (ClientCallback n)"
      using l ClientCallback cc by simp
    then have "provider (call (ClientCallback n) v) = provider v"
      by (rule call_nothing_provider)
    then show ?thesis using ClientCallback IH by (simp add: v_def [symmetric])
  qed
qed

lemma setState_inert_world:
  assumes "inert w"
  shows "setState ns w =
     fold call (listeners (preferencesStore w))
       (log (StoreAssign (spread (state (preferencesStore w)) ns))
          (w\<lparr>preferencesStore := (preferencesStore w)\<lparr>state := spread (state (preferencesStore w)) ns\<rparr>\<rparr>))"
proof -
  define w1 where "w1 = log (StoreAssign (spread (state (preferencesStore w)) ns))
      (w\<lparr>preferencesStore := (preferencesStore w)\<lparr>state := spread (state (preferencesStore w)) ns\<rparr>\<rparr>)"
  have ls: "listeners (preferencesStore w1) = listeners (preferencesStore w)"
    by (simp add: w1_def)
  have p: "inert w1" using assms by (simp add: inert_def w1_def)
  have "forEach 0 (length (listeners (preferencesStore w1))) w1
             = fold call (listeners (preferencesStore w)) w1"
    using forEach_inert [OF p refl, of 0] by (simp add: ls)
  then show ?thesis by (simp add: setState_def Let_def w1_def)
qed

lemma settled_setState:
  assumes "settled w"
  shows "settled (setState ns w)"
proof -
  define w1 where "w1 = log (StoreAssign (spread (state (preferencesStore w)) ns))
      (w\<lparr>preferencesStore := (preferencesStore w)\<lparr>state := spread (state (preferencesStore w)) ns\<rparr>\<rparr>)"
  have i: "inert w" and m: "mounted (provider w)" and h: "isHydrated (provider w)"
    and ex: "list_ex is_ProviderSubscription (listeners (preferencesStore w))"
    using assms by (simp_all add: settled_def)
  have s: "setState ns w = fold call (listeners (preferencesStore w)) w1"
    unfolding w1_def using i by (rule setState_inert_world)
  have all: "list_all (calls_nothing (client_code w1)) (listeners (preferencesStore w))"
    using i by (simp add: inert_def w1_def)
  have m1: "mounted (provider w1)" using m by (simp add: w1_def)
  have "preferences (provider (setState ns w)) = state (preferencesStore w1)"
    using preferences_fold_call_inert [OF all m1] ex by (simp add: s)
  then have a: "preferences (provider (setState ns w)) = state (preferencesStore (setState ns w))"
    by (simp add: w1_def)
  have b: "listeners (preferencesStore (setState ns w)) = listeners (preferencesStore w)"
    using i by (rule setState_inert(2))
  show ?thesis
    using a b m h ex i by (simp add: settled_def inert_def)
qed

lemma settled_render:
  "settled w \<Longrightarrow> PreferencesProvider w = Provided \<lparr>ctx_preferences = getState w\<rparr>"
  by (simp add: settled_def PreferencesProvider_def getState_def)

lemma toggle_step:
  assumes "settled w"
  shows "session_step CallToggleTheme w =
           setState \<lparr>mode_opt = Some (if mode (getState w) = ''light'' then ''dark'' else ''light''),
                     preset_opt = None\<rparr> w"
  by (simp add: settled_render [OF assms] toggleTheme_def provider_setThemeMode_def
      setThemeMode_def Let_def)

text \<open>
  Claim C5, amended. On a page where the provider is hydrated and in step with the store,
  and no listener calls the store from its callback, a call of \<^verbatim>\<open>toggleTheme\<close> made through
  the context value of the current render changes the mode from \<^verbatim>\<open>light\<close> to \<^verbatim>\<open>dark\<close> or
  from \<^verbatim>\<open>dark\<close> to \<^verbatim>\<open>light\<close> and nothing else, and a second call, made through the context
  value of the render that follows the first, restores the preferences.
\<close>

theorem toggleTheme_twice:
  "settled w \<Longrightarrow> is_ThemeMode (mode (getState w)) \<Longrightarrow>
     getState (session_step CallToggleTheme w)
       = (getState w)\<lparr>mode := (if mode (getState w) = ''light'' then ''dark'' else ''light'')\<rparr>
     \<and> settled (session_step CallToggleTheme w)
     \<and> getState (session_step CallToggleTheme (session_step CallToggleTheme w)) = getState w"
proof -
  assume s: "settled w" and v: "is_ThemeMode (mode (getState w))"
  define w1 where "w1 = session_step CallToggleTheme w"
  have a: "getState w1
       = (getState w)\<lparr>mode := (if mode (getState w) = ''light'' then ''dark'' else ''light'')\<rparr>"
    unfolding w1_def by (simp only: toggle_step [OF s]) (simp add: getState_def spread_def)
  have b: "settled w1"
    unfolding w1_def toggle_step [OF s] using s by (rule settled_setState)
  have "getState (session_step CallToggleTheme w1)
       = (getState w1)\<lparr>mode := (if mode (getState w1) = ''light'' then ''dark'' else ''light'')\<rparr>"
    by (simp only: toggle_step [OF b]) (simp add: getState_def spread_def)
  then have c: "getState (session_step CallToggleTheme w1) = getState w"
    using v by (auto simp: a is_ThemeMode_def)
  from a b c show ?thesis unfolding w1_def by blast
qed

theorem toggleTheme_twice_witness:
  "settled (hydrated_page (Some \<lparr>mode = ''dark'', preset = ''soft-pop''\<rparr>))
   \<and> is_ThemeMode (mode (getState (hydrated_page (Some \<lparr>mode = ''dark'', preset = ''soft-pop''\<rparr>))))
   \<and> getState (session_step CallToggleTheme
        (hydrated_page (Some \<lparr>mode = ''dark'', preset = ''soft-pop''\<rparr>)))
       = \<lparr>mode = ''light'', preset = ''soft-pop''\<rparr>
   \<and> getState (session_step CallToggleTheme (session_step CallToggleTheme
        (hydrated_page (Some \<lparr>mode = ''dark'', preset = ''soft-pop''\<rparr>))))
       = \<lparr>mode = ''dark'', preset = ''soft-pop''\<rparr>"
proof -
  have s: "settled (hydrated_page (Some \<lparr>mode = ''dark'', preset = ''soft-pop''\<rparr>))"
    by code_simp
  have g: "getState (hydrated_page (Some \<lparr>mode = ''dark'', preset = ''soft-pop''\<rparr>))
             = \<lparr>mode = ''dark'', preset = ''soft-pop''\<rparr>"
    by (simp add: hydrated_page_def getState_def initialPreferences_of_def)
  have v: "is_ThemeMode (mode (getState (hydrated_page (Some \<lparr>mode = ''dark'', preset = ''soft-pop''\<rparr>))))"
    by (simp add: g is_ThemeMode_def)
  from s v g toggleTheme_twice [OF s v] show ?thesis by (simp del: session_step.simps)
qed

text \<open>
  The claim as it was written fails when the same closure is called twice, with no render
  in between: it reads the mode of the render that made it both times and sets the same
  mode twice.
\<close>

theorem toggleTheme_same_closure_twice:
  "PreferencesProvider (hydrated_page None)
     = Provided \<lparr>ctx_preferences = \<lparr>mode = ''light'', preset = ''default''\<rparr>\<rparr>
   \<and> getState (hydrated_page None) = \<lparr>mode = ''light'', preset = ''default''\<rparr>
   \<and> getState (toggleTheme \<lparr>ctx_preferences = \<lparr>mode = ''light'', preset = ''default''\<rparr>\<rparr>
        (toggleTheme \<lparr>ctx_preferences = \<lparr>mode = ''light'', preset = ''default''\<rparr>\<rparr>
           (hydrated_page None)))
     = \<lparr>mode = ''dark'', preset = ''default''\<rparr>"
  by code_simp


section \<open>Store, root element and cookie after a change of state\<close>

lemma document_updateTheme:
  "document (updateTheme p w) =
     (document w)\<lparr>documentElement :=
        setAttribute ''data-theme-preset'' (preset p)
          ((if mode p = ''dark'' then classList_add ''dark'' else classList_remove ''dark'')
             (documentElement (document w)))\<rparr>"
  by (simp add: updateTheme_def updateThemePreset_def updateThemeMode_def html_setAttribute_def
      html_classList_add_def html_classList_remove_def log_def)

lemma root_after_update:
  "(''dark'' \<in> set (classList
       (setAttribute ''data-theme-preset'' (preset p)
          ((if mode p = ''dark'' then classList_add ''dark'' else classList_remove ''dark'') e))))
     = (mode p = ''dark'')"
  "getAttribute ''data-theme-preset''
     (setAttribute ''data-theme-preset'' (preset p)
        ((if mode p = ''dark'' then classList_add ''dark'' else classList_remove ''dark'') e))
     = Some (preset p)"
  by (simp_all add: classList_setAttribute classList_add_def classList_remove_def
      getAttribute_def setAttribute_def map_of_put)

lemma theme_cookies_own_documentElement [simp]:
  "theme_cookies_own (d\<lparr>documentElement := e\<rparr>) = theme_cookies_own d"
  by (simp add: theme_cookies_own_def cookie_applies_def script_visible_def)

lemma loadThemePreferences_document:
  "document w' = document w \<Longrightarrow> loadThemePreferences w' = loadThemePreferences w"
  by (simp add: loadThemePreferences_def)

lemma document_call_ClientCallback: "document (call (ClientCallback n) w) = document w"
  by (simp add: call_def)

lemma document_call_ProviderSubscription:
  assumes "valid_ThemePreferences (getState w)"
  shows "document (call (ProviderSubscription n) w) =
           saved (getState w)
             ((document w)\<lparr>documentElement :=
                setAttribute ''data-theme-preset'' (preset (getState w))
                  ((if mode (getState w) = ''dark'' then classList_add ''dark''
                    else classList_remove ''dark'')
                     (documentElement (document w)))\<rparr>)"
proof -
  define w1 where "w1 = setPreferences (getState w) (log (Invoke (ProviderSubscription n)) w)"
  have "call (ProviderSubscription n) w
          = saveThemePreferences (getState w) (updateTheme (getState w) w1)"
    by (simp add: call_def provider_subscription_def Let_def w1_def getState_def)
  then have "document (call (ProviderSubscription n) w)
          = saved (getState w) (document (updateTheme (getState w) w1))"
    using assms by (simp add: document_saveThemePreferences)
  then show ?thesis by (simp add: document_updateTheme w1_def)
qed

lemma documentElement_call_ProviderSubscription:
  "documentElement (document (call (ProviderSubscription n) w)) =
     setAttribute ''data-theme-preset'' (preset (getState w))
       ((if mode (getState w) = ''dark'' then classList_add ''dark''
         else classList_remove ''dark'')
          (documentElement (document w)))"
  by (simp add: call_def provider_subscription_def Let_def getState_def
      documentElement_updateTheme)

text \<open>
  After the listeners \<open>ls\<close> have been called in turn, one of them a closure of the provider:
  the root element shows the state of the store, and the cookies hold it.
\<close>

lemma getState_fold_call: "getState (fold call ls w) = getState w"
  by (induction ls arbitrary: w) (simp_all add: getState_def)

lemma root_fold_call:
  assumes "list_ex is_ProviderSubscription ls"
  shows "(''dark'' \<in> set (classList (documentElement (document (fold call ls w)))))
           = (mode (getState w) = ''dark'')
         \<and> getAttribute ''data-theme-preset'' (documentElement (document (fold call ls w)))
           = Some (preset (getState w))"
  using assms
proof (induction ls rule: rev_induct)
  case Nil
  then show ?case by simp
next
  case (snoc l ls)
  define v where "v = fold call ls w"
  have g: "getState v = getState w" unfolding v_def by (rule getState_fold_call)
  show ?case
  proof (cases l)
    case (ProviderSubscription n)
    then show ?thesis
      by (simp add: v_def [symmetric] documentElement_call_ProviderSubscription root_after_update g)
  next
    case (ClientCallback n)
    then have "list_ex is_ProviderSubscription ls" using snoc.prems by simp
    then show ?thesis
      using snoc.IH ClientCallback
      by (simp add: v_def [symmetric] document_call_ClientCallback)
  qed
qed

lemma cookies_fold_call:
  assumes "valid_ThemePreferences (getState w)" and "jar_ok (cookie_jar (document w))"
    and "theme_cookies_own (document w)"
  shows "jar_ok (cookie_jar (document (fold call ls w)))
         \<and> theme_cookies_own (document (fold call ls w))
         \<and> (list_ex is_ProviderSubscription ls \<longrightarrow>
              loadThemePreferences (fold call ls w) = getState w)"
proof (induction ls rule: rev_induct)
  case Nil
  show ?case using assms by simp
next
  case (snoc l ls)
  define v where "v = fold call ls w"
  have g: "getState v = getState w" unfolding v_def by (rule getState_fold_call)
  have j: "jar_ok (cookie_jar (document v))" and t: "theme_cookies_own (document v)"
    and IH: "list_ex is_ProviderSubscription ls \<Longrightarrow> loadThemePreferences v = getState w"
    using snoc.IH by (simp_all add: v_def)
  show ?case
  proof (cases l)
    case (ProviderSubscription n)
    define d where "d = (document v)\<lparr>documentElement :=
                setAttribute ''data-theme-preset'' (preset (getState v))
                  ((if mode (getState v) = ''dark'' then classList_add ''dark''
                    else classList_remove ''dark'')
                     (documentElement (document v)))\<rparr>"
    have valid: "valid_ThemePreferences (getState v)" using assms(1) g by simp
    have doc: "document (call (ProviderSubscription n) v) = saved (getState v) d"
      unfolding d_def using valid by (rule document_call_ProviderSubscription)
    have dj: "jar_ok (cookie_jar d)" and dt: "theme_cookies_own d"
      using j t by (simp_all add: d_def)
    have "loadThemePreferences (call (ProviderSubscription n) v) = getState v"
      using valid dj dt doc by (rule loadThemePreferences_saved)
    moreover have "jar_ok (cookie_jar (document (call (ProviderSubscription n) v)))"
      "theme_cookies_own (document (call (ProviderSubscription n) v))"
      using saved_ok(1,2) [OF valid dj dt] by (simp_all add: doc)
    ultimately show ?thesis
      using ProviderSubscription g by (simp add: v_def [symmetric])
  next
    case (ClientCallback n)
    have "document (call l v) = document v"
      using ClientCallback by (simp add: document_call_ClientCallback)
    then show ?thesis
      using j t IH ClientCallback loadThemePreferences_document [of "call l v" v]
      by (simp add: v_def [symmetric])
  qed
qed

lemma subscribed_setState:
  assumes "subscribed w"
  shows "preferences (provider (setState ns w)) = spread (getState w) ns"
    and "(''dark'' \<in> set (classList (documentElement (document (setState ns w)))))
           = (mode (spread (getState w) ns) = ''dark'')"
    and "getAttribute ''data-theme-preset'' (documentElement (document (setState ns w)))
           = Some (preset (spread (getState w) ns))"
    and "valid_ThemePreferences (spread (getState w) ns) \<Longrightarrow>
         jar_ok (cookie_jar (document w)) \<Longrightarrow> theme_cookies_own (document w) \<Longrightarrow>
         loadThemePreferences (setState ns w) = spread (getState w) ns"
proof -
  define w1 where "w1 = log (StoreAssign (spread (state (preferencesStore w)) ns))
      (w\<lparr>preferencesStore := (preferencesStore w)\<lparr>state := spread (state (preferencesStore w)) ns\<rparr>\<rparr>)"
  have i: "inert w" and m: "mounted (provider w)"
    and ex: "list_ex is_ProviderSubscription (listeners (preferencesStore w))"
    using assms by (simp_all add: subscribed_def)
  have s: "setState ns w = fold call (listeners (preferencesStore w)) w1"
    unfolding w1_def using i by (rule setState_inert_world)
  have g: "getState w1 = spread (getState w) ns" and d: "document w1 = document w"
    by (simp_all add: w1_def getState_def)
  have all: "list_all (calls_nothing (client_code w1)) (listeners (preferencesStore w))"
    using i by (simp add: inert_def w1_def)
  have m1: "mounted (provider w1)" using m by (simp add: w1_def)
  show "preferences (provider (setState ns w)) = spread (getState w) ns"
    using preferences_fold_call_inert [OF all m1] ex g by (simp add: s getState_def)
  show "(''dark'' \<in> set (classList (documentElement (document (setState ns w)))))
           = (mode (spread (getState w) ns) = ''dark'')"
    using root_fold_call [OF ex, of w1] by (simp add: s g)
  show "getAttribute ''data-theme-preset'' (documentElement (document (setState ns w)))
           = Some (preset (spread (getState w) ns))"
    using root_fold_call [OF ex, of w1] by (simp add: s g)
  show "loadThemePreferences (setState ns w) = spread (getState w) ns"
    if "valid_ThemePreferences (spread (getState w) ns)"
      "jar_ok (cookie_jar (document w))" "theme_cookies_own (document w)"
    using cookies_fold_call [of w1 "listeners (preferencesStore w)"] that ex
    by (simp add: s g d)
qed




end
